theory Spec2Isabelle
  imports Complex_Main "HOL-Library.Sublist"
begin

section \<open>Vacanalyzer: the ingestion and reconciliation pipeline\<close>

text \<open>
  A shallow embedding of \<^verbatim>\<open>functions/database.py\<close> (\<^verbatim>\<open>extract_tech\<close>,
  \<^verbatim>\<open>import_jobs_from_json\<close>) and \<^verbatim>\<open>functions/data_import.py\<close> (\<^verbatim>\<open>fetch_jobs\<close>).
  Python strings are \<open>string\<close>; only the ASCII range is interpreted (case folding,
  white space, digits), a character outside it is an ordinary character. Exceptions
  are values, the database and the log are passed explicitly.
\<close>

subsection \<open>The fragment of Python's \<^verbatim>\<open>re\<close> that the code uses\<close>

text \<open>
  A backtracking matcher: \<open>rmatch r s\<close> lists, in the order in which Python's engine
  tries them, the remainders of \<open>s\<close> after each way of matching \<open>r\<close> at the start of
  \<open>s\<close>. The first element is the match the engine reports. \<open>CAny\<close> is the dot (any
  character but a newline), \<open>LazyStar c\<close> is \<^verbatim>\<open>c*?\<close> (shortest first), \<open>Rep n c\<close> is
  \<^verbatim>\<open>c{n}\<close>.
\<close>

datatype cclass = CChar char | CAny | CSet "char list" | CDigit

definition is_digit :: "char \<Rightarrow> bool" where
  "is_digit c = (c \<in> set ''0123456789'')"

fun cmatch :: "cclass \<Rightarrow> char \<Rightarrow> bool" where
  "cmatch (CChar a) c = (c = a)"
| "cmatch CAny c = (c \<noteq> CHR 0x0A)"
| "cmatch (CSet cs) c = (c \<in> set cs)"
| "cmatch CDigit c = is_digit c"

datatype regex = Atom cclass | Seq regex regex | Alt regex regex | LazyStar cclass | Rep nat cclass

fun lazy_star :: "cclass \<Rightarrow> string \<Rightarrow> string list" where
  "lazy_star c [] = [[]]"
| "lazy_star c (x # xs) = (x # xs) # (if cmatch c x then lazy_star c xs else [])"

fun rep :: "nat \<Rightarrow> cclass \<Rightarrow> string \<Rightarrow> string list" where
  "rep 0 c s = [s]"
| "rep (Suc n) c [] = []"
| "rep (Suc n) c (x # xs) = (if cmatch c x then rep n c xs else [])"

fun rmatch :: "regex \<Rightarrow> string \<Rightarrow> string list" where
  "rmatch (Atom c) s = (case s of [] \<Rightarrow> [] | x # xs \<Rightarrow> if cmatch c x then [xs] else [])"
| "rmatch (Seq a b) s = concat (map (rmatch b) (rmatch a s))"
| "rmatch (Alt a b) s = rmatch a s @ rmatch b s"
| "rmatch (LazyStar c) s = lazy_star c s"
| "rmatch (Rep n c) s = rep n c s"

text \<open>\<^verbatim>\<open>re.search\<close>: the text of the first match at the leftmost position that has
  one.\<close>

fun re_search :: "regex \<Rightarrow> string \<Rightarrow> string option" where
  "re_search r [] = (case rmatch r [] of [] \<Rightarrow> None | rest # _ \<Rightarrow> Some [])"
| "re_search r (x # xs) =
     (case rmatch r (x # xs) of
        [] \<Rightarrow> re_search r xs
      | rest # _ \<Rightarrow> Some (take (length (x # xs) - length rest) (x # xs)))"

text \<open>
  \<^verbatim>\<open>re.sub\<close> with a constant replacement, scanning from the left. \<open>adv\<close> is set after
  an empty match: the next match at the same position must then be non-empty, and when
  there is none the character is copied.
\<close>

function re_sub_from :: "regex \<Rightarrow> string \<Rightarrow> bool \<Rightarrow> string \<Rightarrow> string" where
  "re_sub_from r repl adv s =
     (case filter (\<lambda>rest. if adv then length rest < length s else True) (rmatch r s) of
        [] \<Rightarrow> (case s of [] \<Rightarrow> [] | x # xs \<Rightarrow> x # re_sub_from r repl False xs)
      | rest # _ \<Rightarrow>
          if length rest < length s then repl @ re_sub_from r repl False rest
          else repl @ re_sub_from r repl True s)"
  by pat_completeness auto
termination
proof (relation "measure (\<lambda>(r, repl, adv, s). 2 * length s + (if adv then 0 else 1))", goal_cases)
  case 1 show ?case by simp
next
  case 2 then show ?case by simp
next
  case 3 then show ?case by simp
next
  case (4 r repl adv s rest rs)
  have "rest \<in> set (rest # rs)" by simp
  with 4(1) have "rest \<in> set (filter (\<lambda>rest. if adv then length rest < length s else True) (rmatch r s))"
    by metis
  with 4(2) have "\<not> adv" by (auto split: if_splits)
  then show ?case by simp
qed

declare re_sub_from.simps [simp del]

definition re_sub :: "regex \<Rightarrow> string \<Rightarrow> string \<Rightarrow> string" where
  "re_sub r repl s = re_sub_from r repl False s"

text \<open>\<^verbatim>\<open>str.lower\<close> and \<^verbatim>\<open>str.split()\<close> without arguments (runs of white space
  separate, no empty pieces).\<close>

definition lower_char :: "char \<Rightarrow> char" where
  "lower_char c =
     (case map_of (zip ''ABCDEFGHIJKLMNOPQRSTUVWXYZ'' ''abcdefghijklmnopqrstuvwxyz'') c of
        Some l \<Rightarrow> l
      | None \<Rightarrow> c)"

definition py_lower :: "string \<Rightarrow> string" where
  "py_lower s = map lower_char s"

text \<open>The ASCII characters for which \<^verbatim>\<open>str.isspace\<close> holds: tab, newline, vertical
  tab, form feed, carriage return, the four separators 0x1C--0x1F, and the space.\<close>

definition is_space :: "char \<Rightarrow> bool" where
  "is_space c = (c \<in> set [CHR 0x09, CHR 0x0A, CHR 0x0B, CHR 0x0C, CHR 0x0D,
     CHR 0x1C, CHR 0x1D, CHR 0x1E, CHR 0x1F, CHR '' ''])"

fun split_words :: "string \<Rightarrow> string \<Rightarrow> string list" where
  "split_words cur [] = (if cur = [] then [] else [cur])"
| "split_words cur (c # cs) =
     (if is_space c then (if cur = [] then [] else [cur]) @ split_words [] cs
      else split_words (cur @ [c]) cs)"

definition py_split :: "string \<Rightarrow> string list" where
  "py_split s = split_words [] s"

text \<open>
  \<^verbatim>\<open>extract_tech\<close> (lines 34--71). The two sets are lists in the order written; the
  source iterates \<^verbatim>\<open>KNOWN_TECHS\<close> in the set's own order, so the scan takes the order
  as a parameter (\<open>extract_tech_order_independent\<close> shows that it does not matter). With a
  string for title nothing in the \<^verbatim>\<open>try\<close> block raises.
\<close>

definition KNOWN_TECHS :: "string list" where
  "KNOWN_TECHS = [''SAP'', ''Clojure'', ''C#'', ''Java'', ''C++'', ''PHP'', ''Python'', ''JavaScript'',
     ''AWS'', ''VHDL'', ''COBOL'', ''RPG'', ''Delphi'', ''Angular'', ''TypeScript'', ''Go'',
     ''Ruby'', ''SQL'', ''PL/SQL'', ''ABAP'', ''NodeJS'', ''Flutter'', ''Scala'', ''Kotlin'',
     ''Rust'', ''.NET'', ''iOS'', ''Android'']"

definition IGNORE_WORDS :: "string list" where
  "IGNORE_WORDS = [''softwareentwickler'', ''entwickler'', ''entwicklerin'', ''entwickler/in'',
     ''software'', ''programmierer'', ''m/w/d'', ''mwd'', '':in'', ''leiter'',
     ''teamleitung'', ''projektleiter'', ''senior'', ''junior'', ''fullstack'',
     ''praktikum'', ''student'', ''werkstudent'', ''trainee'', ''dual'', ''mit'', ''in'', ''als'']"

definition title_pattern :: regex where
  "title_pattern =
     Alt (Seq (Atom (CChar (CHR ''(''))) (Seq (LazyStar CAny) (Atom (CChar (CHR '')'')))))
    (Alt (Seq (Atom (CChar (CHR ''/''))) (LazyStar CAny))
         (Atom (CSet ''-,'')))"

definition clean_title :: "string \<Rightarrow> string" where
  "clean_title title = re_sub title_pattern '' '' title"

fun scan_words :: "string list \<Rightarrow> string list \<Rightarrow> string" where
  "scan_words techs [] = ''Other''"
| "scan_words techs (word # words) =
     (if word \<in> set IGNORE_WORDS then scan_words techs words
      else (case find (\<lambda>tech. word = py_lower tech) techs of
              Some tech \<Rightarrow> tech
            | None \<Rightarrow> scan_words techs words))"

definition extract_tech_in :: "string list \<Rightarrow> string \<Rightarrow> string" where
  "extract_tech_in techs title = scan_words techs (py_split (py_lower (clean_title title)))"

definition extract_tech :: "string \<Rightarrow> string" where
  "extract_tech title = extract_tech_in KNOWN_TECHS title"



text \<open>
  The spec's wording of the classifier, for comparison with \<open>extract_tech\<close>: the first
  vocabulary member whose lower-cased form equals a token, tokens scanned left to right,
  "Other" when no token matches.
\<close>

fun first_vocab_match :: "string list \<Rightarrow> string list \<Rightarrow> string" where
  "first_vocab_match vocab [] = ''Other''"
| "first_vocab_match vocab (token # tokens) =
     (case find (\<lambda>member. py_lower member = token) vocab of
        Some member \<Rightarrow> member
      | None \<Rightarrow> first_vocab_match vocab tokens)"

text \<open>
  What the cleaning step amounts to, for comparison with \<open>clean_title\<close>: an opening
  parenthesis with a closing one after it on the same line is replaced, together with
  everything up to the first such closing one, by one space; every slash, hyphen and comma
  that is left is replaced by one space; every other character stays.
\<close>

definition blank_sep :: "char \<Rightarrow> char" where
  "blank_sep c = (if c \<in> set ''/-,'' then CHR '' '' else c)"

fun close_paren :: "string \<Rightarrow> string option" where
  "close_paren [] = None"
| "close_paren (c # cs) =
     (if c = CHR '')'' then Some cs else if c = CHR 0x0A then None else close_paren cs)"

function blank_separators :: "string \<Rightarrow> string" where
  "blank_separators [] = []"
| "blank_separators (c # cs) =
     (if c = CHR ''('' then
        (case close_paren cs of
           Some rest \<Rightarrow> CHR '' '' # blank_separators rest
         | None \<Rightarrow> c # blank_separators cs)
      else blank_sep c # blank_separators cs)"
  by pat_completeness auto
termination
proof -
  have "close_paren xs = Some ys \<Longrightarrow> length ys < Suc (length xs)" for xs ys
    by (induction xs) (auto split: if_splits)
  then show ?thesis
    by (relation "measure length") auto
qed

subsection \<open>Decoded JSON and the Python operations on it\<close>

text \<open>
  What \<^verbatim>\<open>json.load\<close> returns. \<open>JNull\<close> is Python's \<^verbatim>\<open>None\<close>; a \<open>JObj\<close> is a
  \<^verbatim>\<open>dict\<close>, read through \<open>map_of\<close>. Numbers are exact rationals.
\<close>

datatype json = JNull | JBool bool | JNum rat | JStr string
  | JArr "json list" | JObj "(string \<times> json) list"

datatype exn = IntegrityError | AttributeError | TypeError | ValueError | IndexError

datatype log_entry = Info string | Warning string | Error string | ExceptionLog string

definition py_get :: "(string \<times> json) list \<Rightarrow> string \<Rightarrow> json" where
  "py_get d k = (case map_of d k of None \<Rightarrow> JNull | Some v \<Rightarrow> v)"

definition py_get_default :: "(string \<times> json) list \<Rightarrow> string \<Rightarrow> json \<Rightarrow> json" where
  "py_get_default d k dflt = (case map_of d k of None \<Rightarrow> dflt | Some v \<Rightarrow> v)"

fun py_truthy :: "json \<Rightarrow> bool" where
  "py_truthy JNull = False"
| "py_truthy (JBool b) = b"
| "py_truthy (JNum r) = (r \<noteq> 0)"
| "py_truthy (JStr s) = (s \<noteq> [])"
| "py_truthy (JArr xs) = (xs \<noteq> [])"
| "py_truthy (JObj kvs) = (kvs \<noteq> [])"

text \<open>Iteration (\<^verbatim>\<open>for x in v\<close>, \<^verbatim>\<open>list.extend(v)\<close>): a dict yields its keys, a
  string its characters, a scalar raises \<^verbatim>\<open>TypeError\<close>.\<close>

fun py_iter :: "json \<Rightarrow> exn + json list" where
  "py_iter (JArr xs) = Inr xs"
| "py_iter (JObj kvs) = Inr (map (\<lambda>kv. JStr (fst kv)) kvs)"
| "py_iter (JStr s) = Inr (map (\<lambda>c. JStr [c]) s)"
| "py_iter _ = Inl TypeError"

text \<open>\<^verbatim>\<open>str.split(sep)\<close> keeps empty pieces; \<^verbatim>\<open>str.strip()\<close> removes white space at
  both ends.\<close>

fun split_on :: "char \<Rightarrow> string \<Rightarrow> string list" where
  "split_on sep [] = [[]]"
| "split_on sep (c # cs) =
     (if c = sep then [] # split_on sep cs
      else (case split_on sep cs of [] \<Rightarrow> [[c]] | p # ps \<Rightarrow> (c # p) # ps))"

definition py_strip :: "string \<Rightarrow> string" where
  "py_strip s = rev (dropWhile is_space (rev (dropWhile is_space s)))"

text \<open>\<^verbatim>\<open>extract_tech\<close> on whatever \<^verbatim>\<open>job_data.get("title", "")\<close> returned: on a value
  that is not a string \<^verbatim>\<open>re.sub\<close> raises, the \<^verbatim>\<open>except\<close> clause logs and the function
  returns "Other".\<close>

fun extract_tech_py :: "json \<Rightarrow> string" where
  "extract_tech_py (JStr title) = extract_tech title"
| "extract_tech_py _ = ''Other''"

subsection \<open>The posting date taken from the path (lines 94--97)\<close>

datatype date = Date nat nat nat

definition date_pattern :: regex where
  "date_pattern =
     Seq (Rep 4 CDigit) (Seq (Atom (CChar (CHR ''-''))) (Seq (Rep 2 CDigit)
       (Seq (Atom (CChar (CHR ''-''))) (Rep 2 CDigit))))"

definition int_of_digits :: "string \<Rightarrow> nat" where
  "int_of_digits s = foldl (\<lambda>n c. 10 * n + ((of_char c :: nat) - 48)) 0 s"

definition is_leap :: "nat \<Rightarrow> bool" where
  "is_leap y = (y mod 4 = 0 \<and> (if y mod 100 = 0 then y mod 400 = 0 else True))"

definition days_in_month :: "nat \<Rightarrow> nat \<Rightarrow> nat" where
  "days_in_month y m =
     (if m = 2 then (if is_leap y then 29 else 28)
      else if m \<in> {4, 6, 9, 11} then 30 else 31)"

text \<open>
  \<^verbatim>\<open>datetime.strptime(s, "%Y-%m-%d").date()\<close> on a string \<open>s\<close> that \<open>date_pattern\<close>
  matched (four, two and two digits): it raises \<^verbatim>\<open>ValueError\<close> unless the year is at
  least 1, the month in 1..12 and the day in the month.
\<close>

definition strptime_ymd :: "string \<Rightarrow> exn + date" where
  "strptime_ymd s =
     (let y = int_of_digits (take 4 s);
          m = int_of_digits (take 2 (drop 5 s));
          d = int_of_digits (take 2 (drop 8 s))
      in if 1 \<le> y \<and> 1 \<le> m \<and> m \<le> 12 \<and> 1 \<le> d \<and> d \<le> days_in_month y m
         then Inr (Date y m d) else Inl ValueError)"

subsection \<open>The tables\<close>

text \<open>
  A table is the list of its rows in insertion order; a row's primary key is its
  position (the pipeline never deletes). A column holds the Python value it was given:
  peewee's conversion of a value to the column's type is not modelled, the one constraint
  modelled is \<^verbatim>\<open>NOT NULL\<close>. \<^verbatim>\<open>models/Job.py\<close> and \<^verbatim>\<open>models/JobLocation.py\<close> give
  the columns and which of them are nullable. Statements are committed one by one: there
  is no transaction around a record.
\<close>

record Job =
  Job_job_id :: json
  Job_title :: json
  Job_description :: json
  Job_salary_is_predicted :: bool
  Job_redirect_url :: json
  Job_company :: json
  Job_tech :: nat
  Job_date :: "date option"

record JobLocation =
  JL_job :: nat
  JL_location :: nat
  JL_district :: "string option"
  JL_latitude :: json
  JL_longitude :: json

text \<open>
  Modelled from the spec: \<^verbatim>\<open>models/Tech.py\<close> and \<^verbatim>\<open>models/Location.py\<close> are not
  among the sources. The spec gives each one column, the name (Tech) and the display
  name (Location), by which the rows are looked up.
\<close>

type_synonym Tech = string

type_synonym Location = string

record db =
  techs :: "Tech list"
  locations :: "Location list"
  jobs :: "Job list"
  job_locations :: "JobLocation list"

fun first_index :: "('a \<Rightarrow> bool) \<Rightarrow> 'a list \<Rightarrow> nat option" where
  "first_index P [] = None"
| "first_index P (x # xs) = (if P x then Some 0 else map_option Suc (first_index P xs))"

text \<open>peewee's \<^verbatim>\<open>Model.get_or_create\<close>: select by the key; the first row found is
  returned with \<^verbatim>\<open>False\<close>, otherwise the row is inserted and returned with \<^verbatim>\<open>True\<close>.\<close>

definition name_get_or_create :: "string \<Rightarrow> string list \<Rightarrow> (nat \<times> bool) \<times> string list" where
  "name_get_or_create name rows =
     (case first_index (\<lambda>n. n = name) rows of
        Some i \<Rightarrow> ((i, False), rows)
      | None \<Rightarrow> ((length rows, True), rows @ [name]))"

definition Tech_get_or_create :: "string \<Rightarrow> db \<Rightarrow> (nat \<times> bool) \<times> db" where
  "Tech_get_or_create name d =
     (let (res, rows) = name_get_or_create name (techs d) in (res, d\<lparr>techs := rows\<rparr>))"

definition Location_get_or_create :: "string \<Rightarrow> db \<Rightarrow> (nat \<times> bool) \<times> db" where
  "Location_get_or_create display_name d =
     (let (res, rows) = name_get_or_create display_name (locations d)
      in (res, d\<lparr>locations := rows\<rparr>))"

text \<open>The \<^verbatim>\<open>NOT NULL\<close> columns of \<^verbatim>\<open>Job\<close>: every column but \<^verbatim>\<open>date\<close>.\<close>

definition Job_not_null :: "Job \<Rightarrow> bool" where
  "Job_not_null r =
     (Job_job_id r \<noteq> JNull \<and> Job_title r \<noteq> JNull \<and> Job_description r \<noteq> JNull \<and>
      Job_redirect_url r \<noteq> JNull \<and> Job_company r \<noteq> JNull)"

text \<open>\<^verbatim>\<open>Job.get_or_create(job_id=..., defaults=...)\<close>; \<open>row\<close> is the row that would be
  inserted. An insert that violates \<^verbatim>\<open>NOT NULL\<close> raises \<^verbatim>\<open>IntegrityError\<close>.\<close>

definition Job_get_or_create :: "Job \<Rightarrow> db \<Rightarrow> exn + ((nat \<times> bool) \<times> db)" where
  "Job_get_or_create row d =
     (case first_index (\<lambda>r. Job_job_id r = Job_job_id row) (jobs d) of
        Some i \<Rightarrow> Inr ((i, False), d)
      | None \<Rightarrow>
          if Job_not_null row then Inr ((length (jobs d), True), d\<lparr>jobs := jobs d @ [row]\<rparr>)
          else Inl IntegrityError)"

text \<open>\<^verbatim>\<open>job.save()\<close> on a loaded instance: one \<^verbatim>\<open>UPDATE\<close> of the row with that key.\<close>

definition Job_save :: "nat \<Rightarrow> Job \<Rightarrow> db \<Rightarrow> exn + db" where
  "Job_save i row d =
     (if Job_not_null row then Inr (d\<lparr>jobs := (jobs d)[i := row]\<rparr>) else Inl IntegrityError)"

subsection \<open>One record (lines 104--173)\<close>

text \<open>Lines 110--133: the Tech row, then the Job row, created or overwritten. An
  exception leaves the database as the statements before it made it.\<close>

definition upsert_job ::
  "date option \<Rightarrow> json \<Rightarrow> json \<Rightarrow> json \<Rightarrow> bool \<Rightarrow> json \<Rightarrow> json \<Rightarrow> db \<Rightarrow> (exn + nat) \<times> db" where
  "upsert_job job_date job_id title description salary_is_predicted redirect_url company d =
     (let t = extract_tech_py title;
          tech_name = (if t = [] then ''Other'' else t);
          ((tech, _), d1) = Tech_get_or_create tech_name d
      in case Job_get_or_create
               \<lparr>Job_job_id = job_id, Job_title = title, Job_description = description,
                Job_salary_is_predicted = salary_is_predicted, Job_redirect_url = redirect_url,
                Job_company = company, Job_tech = tech, Job_date = job_date\<rparr> d1 of
           Inl e \<Rightarrow> (Inl e, d1)
         | Inr ((job, created), d2) \<Rightarrow>
             if \<not> created then
               (case Job_save job
                   ((jobs d2 ! job)\<lparr>Job_title := title, Job_description := description,
                      Job_salary_is_predicted := salary_is_predicted,
                      Job_redirect_url := redirect_url, Job_company := company,
                      Job_tech := tech\<rparr>) d2 of
                  Inl e \<Rightarrow> (Inl e, d2)
                | Inr d3 \<Rightarrow> (Inr job, d3))
             else (Inr job, d2))"

text \<open>Lines 141--145.\<close>

definition parse_location :: "string \<Rightarrow> exn + (string option \<times> string)" where
  "parse_location display_name =
     (let parts = map py_strip (split_on (CHR '','') display_name)
      in if length parts = 2 then Inr (Some (parts ! 0), parts ! 1)
         else (case parts of [] \<Rightarrow> Inl IndexError | p # _ \<Rightarrow> Inr (None, p)))"

text \<open>The \<^verbatim>\<open>where\<close> clause of lines 149--154. peewee renders \<^verbatim>\<open>column == None\<close> as
  \<^verbatim>\<open>IS NULL\<close>, and in SQL a null column equals no string.\<close>

definition peewee_eq :: "string option \<Rightarrow> string option \<Rightarrow> bool" where
  "peewee_eq col v =
     (case v of None \<Rightarrow> col = None
      | Some x \<Rightarrow> (case col of None \<Rightarrow> False | Some y \<Rightarrow> y = x))"

definition jl_match :: "nat \<Rightarrow> nat \<Rightarrow> string option \<Rightarrow> JobLocation \<Rightarrow> bool" where
  "jl_match job city_location district_name r =
     (JL_job r = job \<and> JL_location r = city_location \<and>
      (peewee_eq (JL_district r) district_name \<or>
       (JL_district r = None \<and> district_name = None)))"

text \<open>Lines 147--173.\<close>

definition upsert_job_location :: "nat \<Rightarrow> string \<Rightarrow> json \<Rightarrow> json \<Rightarrow> db \<Rightarrow> exn option \<times> db" where
  "upsert_job_location job display_name latitude longitude d =
     (case parse_location display_name of
        Inl e \<Rightarrow> (Some e, d)
      | Inr (district_name, city_name) \<Rightarrow>
          (let ((city_location, _), d1) = Location_get_or_create city_name d
           in case first_index (jl_match job city_location district_name) (job_locations d1) of
               Some i \<Rightarrow>
                 (let row = job_locations d1 ! i;
                     (row1, updated1) =
                        (if latitude \<noteq> JNull \<and> JL_latitude row \<noteq> latitude
                         then (row\<lparr>JL_latitude := latitude\<rparr>, True) else (row, False));
                     (row2, updated2) =
                        (if longitude \<noteq> JNull \<and> JL_longitude row1 \<noteq> longitude
                         then (row1\<lparr>JL_longitude := longitude\<rparr>, True) else (row1, updated1))
                 in if updated2
                    then (None, d1\<lparr>job_locations := (job_locations d1)[i := row2]\<rparr>)
                    else (None, d1))
             | None \<Rightarrow>
                 (None, d1\<lparr>job_locations := job_locations d1 @
                    [\<lparr>JL_job = job, JL_location = city_location, JL_district = district_name,
                      JL_latitude = latitude, JL_longitude = longitude\<rparr>]\<rparr>)))"

text \<open>Lines 135--173. \<^verbatim>\<open>.get\<close> on a value that is not a dict, and \<^verbatim>\<open>.split\<close>
  on one that is not a string, raise \<^verbatim>\<open>AttributeError\<close>.\<close>

definition location_stage :: "(string \<times> json) list \<Rightarrow> nat \<Rightarrow> db \<Rightarrow> exn option \<times> db" where
  "location_stage jd job d =
     (case py_get_default jd ''location'' (JObj []) of
        JObj location_info \<Rightarrow>
          (let display_name = py_get location_info ''display_name'';
               latitude = py_get jd ''latitude'';
               longitude = py_get jd ''longitude''
           in if py_truthy display_name \<and> display_name \<noteq> JStr ''Deutschland''
              then (case display_name of
                      JStr s \<Rightarrow> upsert_job_location job s latitude longitude d
                    | _ \<Rightarrow> (Some AttributeError, d))
              else (None, d))
      | _ \<Rightarrow> (Some AttributeError, d))"

text \<open>The body of the inner \<^verbatim>\<open>try\<close> (lines 104--173).\<close>

definition process_job :: "date option \<Rightarrow> json \<Rightarrow> db \<Rightarrow> exn option \<times> db" where
  "process_job job_date job_data d =
     (case job_data of
        JObj jd \<Rightarrow>
          (let job_id = py_get jd ''id'';
               title = py_get_default jd ''title'' (JStr []);
               description = py_get_default jd ''description'' (JStr []);
               salary_is_predicted = (py_get jd ''salary_is_predicted'' = JStr ''1'');
               redirect_url = py_get_default jd ''redirect_url'' (JStr [])
           in (case py_get_default jd ''company'' (JObj []) of
                 JObj c \<Rightarrow>
                   (let company = py_get_default c ''display_name'' (JStr [])
                    in (case upsert_job job_date job_id title description salary_is_predicted
                              redirect_url company d of
                          (Inl e, d1) \<Rightarrow> (Some e, d1)
                        | (Inr job, d1) \<Rightarrow> location_stage jd job d1))
               | _ \<Rightarrow> (Some AttributeError, d)))
      | _ \<Rightarrow> (Some AttributeError, d))"

subsection \<open>The import (lines 93--185)\<close>

text \<open>
  One turn of the loop with its two handlers. Both handlers format
  \<^verbatim>\<open>job_data.get('id')\<close> into the message before they log: when \<open>job_data\<close> is not a
  dict that call raises again, inside the handler, and the exception leaves the loop
  (\<open>Inl\<close>). Messages carry the constant part of the source's text.
\<close>

definition import_record ::
  "date option \<Rightarrow> json \<Rightarrow> db \<times> log_entry list \<Rightarrow> (db \<times> log_entry list) + (db \<times> log_entry list)" where
  "import_record job_date job_data st =
     (case process_job job_date job_data (fst st) of
        (None, d) \<Rightarrow> Inr (d, snd st)
      | (Some e, d) \<Rightarrow>
          (case job_data of
             JObj jd \<Rightarrow>
               if e = IntegrityError then Inr (d, snd st @ [Warning ''IntegrityError for job''])
               else Inr (d, snd st @ [ExceptionLog ''Error processing job''])
           | _ \<Rightarrow> Inl (d, snd st)))"

fun import_loop ::
  "date option \<Rightarrow> json list \<Rightarrow> db \<times> log_entry list \<Rightarrow> (db \<times> log_entry list) + (db \<times> log_entry list)" where
  "import_loop job_date [] st = Inr st"
| "import_loop job_date (job_data # rest) st =
     (case import_record job_date job_data st of
        Inl st1 \<Rightarrow> Inl st1
      | Inr st1 \<Rightarrow> import_loop job_date rest st1)"

text \<open>What \<^verbatim>\<open>open\<close> and \<^verbatim>\<open>json.load\<close> do with a path.\<close>

datatype file_result = FileNotFound | DecodeError | OtherFailure | Content json

text \<open>Lines 94--95: the first match of the pattern in the path, parsed as a date;
  \<^verbatim>\<open>None\<close> when the pattern matches nowhere.\<close>

definition date_of_path :: "string \<Rightarrow> exn + date option" where
  "date_of_path json_path =
     (case re_search date_pattern json_path of
        None \<Rightarrow> Inr None
      | Some m \<Rightarrow> (case strptime_ymd m of Inl e \<Rightarrow> Inl e | Inr dt \<Rightarrow> Inr (Some dt)))"

text \<open>
  The function has no \<^verbatim>\<open>return\<close> statement: on every path the caller receives
  \<^verbatim>\<open>None\<close>, here the first component \<open>JNull\<close>. The rest of the result is the
  database and the log afterwards. An exception that reaches the outer handlers ends the
  call with one log entry.
\<close>

definition unexpected_error :: "string \<Rightarrow> log_entry" where
  "unexpected_error json_path =
     ExceptionLog (''Unexpected error while importing jobs from '' @ json_path)"

definition import_jobs_from_json ::
  "(string \<Rightarrow> file_result) \<Rightarrow> string \<Rightarrow> db \<times> log_entry list \<Rightarrow> json \<times> db \<times> log_entry list" where
  "import_jobs_from_json fs json_path st =
     (case date_of_path json_path of
        Inl e \<Rightarrow> (JNull, fst st, snd st @ [unexpected_error json_path])
      | Inr job_date \<Rightarrow>
          (let log1 = (if job_date = None
                       then snd st @ [Warning (''Failed to extract date from '' @ json_path)]
                       else snd st)
           in (case fs json_path of
                 FileNotFound \<Rightarrow> (JNull, fst st, log1 @ [Error (''JSON file not found: '' @ json_path)])
               | DecodeError \<Rightarrow> (JNull, fst st, log1 @ [Error (''Failed to decode JSON: '' @ json_path)])
               | OtherFailure \<Rightarrow> (JNull, fst st, log1 @ [unexpected_error json_path])
               | Content jobs_data \<Rightarrow>
                   (case py_iter jobs_data of
                      Inl e \<Rightarrow> (JNull, fst st, log1 @ [unexpected_error json_path])
                    | Inr records \<Rightarrow>
                        (case import_loop job_date records (fst st, log1) of
                           Inl (d, lg) \<Rightarrow> (JNull, d, lg @ [unexpected_error json_path])
                         | Inr (d, lg) \<Rightarrow> (JNull, d, lg @ [Info ''Job import completed successfully.'']))))))"

definition empty_db :: db where
  "empty_db = \<lparr>techs = [], locations = [], jobs = [], job_locations = []\<rparr>"

fun is_dict :: "json \<Rightarrow> bool" where
  "is_dict (JObj _) = True"
| "is_dict _ = False"

definition row_counts :: "db \<Rightarrow> nat \<times> nat \<times> nat \<times> nat" where
  "row_counts d = (length (jobs d), length (techs d), length (locations d), length (job_locations d))"

subsection \<open>\<^verbatim>\<open>fetch_jobs\<close> (\<^verbatim>\<open>functions/data_import.py\<close>)\<close>

text \<open>
  What \<^verbatim>\<open>requests.get\<close> followed by \<^verbatim>\<open>raise_for_status\<close> gives for a page: a
  \<^verbatim>\<open>RequestException\<close> (network error, non-2xx status), or a response, whose
  \<^verbatim>\<open>.json()\<close> is the decoded body or raises (\<open>None\<close>) when the body is not JSON.
\<close>

datatype http_result = RequestException | Response "json option"

record fetch_state =
  page :: nat
  all_jobs :: "json list"
  fetch_log :: "log_entry list"
  requested :: "nat list"
  sleeps :: nat

text \<open>
  The \<^verbatim>\<open>while True\<close> loop (lines 50--77). It need not end: the result is \<open>None\<close>
  when it does not. When it ends, the first component tells whether it ended by
  \<^verbatim>\<open>break\<close> (\<open>None\<close>) or by an exception that leaves the loop: \<^verbatim>\<open>.json()\<close> raising,
  \<^verbatim>\<open>.get\<close> on a body that is not a dict, \<^verbatim>\<open>extend\<close> with a value that cannot be
  iterated. \<open>requested\<close> lists the pages asked for, \<open>sleeps\<close> counts the calls of
  \<^verbatim>\<open>sleep_func\<close>.
\<close>

partial_function (option) fetch_loop ::
  "(nat \<Rightarrow> http_result) \<Rightarrow> fetch_state \<Rightarrow> (exn option \<times> fetch_state) option" where
  "fetch_loop api st =
     (let st1 = st\<lparr>requested := requested st @ [page st]\<rparr>
      in case api (page st) of
           RequestException \<Rightarrow>
             Some (None, st1\<lparr>fetch_log := fetch_log st1 @ [Error ''Request Error'']\<rparr>)
         | Response body \<Rightarrow>
             (case body of
                None \<Rightarrow> Some (Some ValueError, st1)
              | Some data \<Rightarrow>
                  (case data of
                     JObj kvs \<Rightarrow>
                       (let jobs_on_page = py_get_default kvs ''results'' (JArr [])
                        in if \<not> py_truthy jobs_on_page
                           then Some (None, st1\<lparr>fetch_log := fetch_log st1 @
                                   [Info ''No more jobs found, finishing pagination.'']\<rparr>)
                           else (case py_iter jobs_on_page of
                                   Inl e \<Rightarrow> Some (Some e, st1)
                                 | Inr js \<Rightarrow>
                                     fetch_loop api
                                       (st1\<lparr>all_jobs := all_jobs st1 @ js,
                                            fetch_log := fetch_log st1 @ [Info ''Page loaded''],
                                            page := page st1 + 1,
                                            sleeps := sleeps st1 + 1\<rparr>)))
                   | _ \<Rightarrow> Some (Some AttributeError, st1))))"

record fetch_result =
  returned :: "string option"
  artifact :: "(string \<times> json list) option"
  final_log :: "log_entry list"
  pages_requested :: "nat list"

text \<open>
  The whole function. \<open>app_id\<close> and \<open>app_key\<close> are what \<^verbatim>\<open>os.getenv\<close> returns,
  \<open>current_date\<close> is today as \<^verbatim>\<open>%Y-%m-%d\<close>, \<open>writable\<close> tells whether the file can be
  written. \<open>artifact\<close> is the file written, with the list dumped into it.
\<close>

definition fetch_jobs ::
  "string option \<Rightarrow> string option \<Rightarrow> (nat \<Rightarrow> http_result) \<Rightarrow> string \<Rightarrow> bool \<Rightarrow> fetch_result option" where
  "fetch_jobs app_id app_key api current_date writable =
     (if app_id = None \<or> app_id = Some [] \<or> app_key = None \<or> app_key = Some []
      then Some \<lparr>returned = None, artifact = None,
                 final_log = [ExceptionLog ''An error occurred''], pages_requested = []\<rparr>
      else (case fetch_loop api
                   \<lparr>page = 1, all_jobs = [], fetch_log = [], requested = [], sleeps = 0\<rparr> of
              None \<Rightarrow> None
            | Some (Some e, st) \<Rightarrow>
                Some \<lparr>returned = None, artifact = None,
                      final_log = fetch_log st @ [ExceptionLog ''An error occurred''],
                      pages_requested = requested st\<rparr>
            | Some (None, st) \<Rightarrow>
                (let filename = ''all_jobs_'' @ current_date @ ''.json''
                 in if writable
                    then Some \<lparr>returned = Some filename, artifact = Some (filename, all_jobs st),
                               final_log = fetch_log st, pages_requested = requested st\<rparr>
                    else Some \<lparr>returned = None, artifact = None,
                               final_log = fetch_log st @ [Error ''Error writing file''],
                               pages_requested = requested st\<rparr>)))"

text \<open>What line 68 reads from a page, when lines 60--68 raise nothing; a page that holds
  the given list of postings; and the state of the loop after the pages
  \<open>page st, \<dots>, n - 1\<close> when each of them held a non-empty list.\<close>

definition page_results :: "http_result \<Rightarrow> json option" where
  "page_results r =
     (case r of
        Response (Some (JObj kvs)) \<Rightarrow> Some (py_get_default kvs ''results'' (JArr []))
      | _ \<Rightarrow> None)"

definition results_page :: "json list \<Rightarrow> http_result" where
  "results_page js = Response (Some (JObj [(''results'', JArr js)]))"

definition advance :: "(nat \<Rightarrow> json list) \<Rightarrow> nat \<Rightarrow> fetch_state \<Rightarrow> fetch_state" where
  "advance res n st =
     st\<lparr>requested := requested st @ [page st ..< n],
        all_jobs := all_jobs st @ concat (map res [page st ..< n]),
        fetch_log := fetch_log st @ replicate (n - page st) (Info ''Page loaded''),
        page := n,
        sleeps := sleeps st + (n - page st)\<rparr>"

text \<open>The fake API of \<^verbatim>\<open>tests/test_data_import.py\<close>: two postings on page 1, none
  afterwards; one whose second page is not JSON; one whose second request fails.\<close>

definition two_postings :: "json list" where
  "two_postings =
     [JObj [(''title'', JStr ''Softwareentwickler''), (''company'', JObj [(''display_name'', JStr ''ABC GmbH'')])],
      JObj [(''title'', JStr ''Junior Developer''), (''company'', JObj [(''display_name'', JStr ''XYZ AG'')])]]"

definition mock_get :: "nat \<Rightarrow> http_result" where
  "mock_get p = (if p > 1 then results_page [] else results_page two_postings)"

definition broken_get :: "nat \<Rightarrow> http_result" where
  "broken_get p = (if p > 1 then Response None else results_page two_postings)"

definition failing_get :: "nat \<Rightarrow> http_result" where
  "failing_get p = (if p > 1 then RequestException else results_page two_postings)"

subsection \<open>Keys\<close>

text \<open>The identity of a Job row is its external identifier; that of a JobLocation row is
  the triple (job, location, district).\<close>

definition job_ids :: "db \<Rightarrow> json list" where
  "job_ids d = map Job_job_id (jobs d)"

definition jl_key :: "JobLocation \<Rightarrow> nat \<times> nat \<times> string option" where
  "jl_key r = (JL_job r, JL_location r, JL_district r)"

definition jl_keys :: "db \<Rightarrow> (nat \<times> nat \<times> string option) list" where
  "jl_keys d = map jl_key (job_locations d)"

text \<open>What a get-or-create does to the list of keys of its table.\<close>

definition add_key :: "'a \<Rightarrow> 'a list \<Rightarrow> 'a list" where
  "add_key k ks = (if k \<in> set ks then ks else ks @ [k])"

text \<open>The values that decide whether a Job row can be written: the \<^verbatim>\<open>NOT NULL\<close>
  columns the record supplies.\<close>

definition creatable :: "json \<Rightarrow> json \<Rightarrow> json \<Rightarrow> json \<Rightarrow> json \<Rightarrow> bool" where
  "creatable job_id title description redirect_url company =
     (job_id \<noteq> JNull \<and> title \<noteq> JNull \<and> description \<noteq> JNull \<and>
      redirect_url \<noteq> JNull \<and> company \<noteq> JNull)"

definition tech_name_of :: "json \<Rightarrow> string" where
  "tech_name_of title = (let t = extract_tech_py title in if t = [] then ''Other'' else t)"

definition step :: "date option \<Rightarrow> json \<Rightarrow> db \<Rightarrow> db" where
  "step job_date job_data d = snd (process_job job_date job_data d)"

text \<open>The display name that reaches lines 141--173, if any.\<close>

definition location_name :: "(string \<times> json) list \<Rightarrow> string option" where
  "location_name jd =
     (case py_get_default jd ''location'' (JObj []) of
        JObj location_info \<Rightarrow>
          (case py_get location_info ''display_name'' of
             JStr s \<Rightarrow> if s \<noteq> [] \<and> s \<noteq> ''Deutschland'' then Some s else None
           | _ \<Rightarrow> None)
      | _ \<Rightarrow> None)"

definition the_index :: "'a \<Rightarrow> 'a list \<Rightarrow> nat" where
  "the_index k ks = (case first_index (\<lambda>x. x = k) ks of Some i \<Rightarrow> i | None \<Rightarrow> 0)"

type_synonym keys = "string list \<times> string list \<times> json list \<times> (nat \<times> nat \<times> string option) list"

definition keys_of :: "db \<Rightarrow> keys" where
  "keys_of d = (techs d, locations d, job_ids d, jl_keys d)"

text \<open>What one record does to the four key lists; \<open>step_keys\<close> below shows that this is
  what \<open>process_job\<close> does to them.\<close>

definition key_step :: "json \<Rightarrow> keys \<Rightarrow> keys" where
  "key_step job_data ks =
     (case ks of (T, L, J, K) \<Rightarrow>
      (case job_data of
         JObj jd \<Rightarrow>
           (case py_get_default jd ''company'' (JObj []) of
              JObj c \<Rightarrow>
                (let job_id = py_get jd ''id'';
                     title = py_get_default jd ''title'' (JStr []);
                     T1 = add_key (tech_name_of title) T
                 in if creatable job_id title (py_get_default jd ''description'' (JStr []))
                         (py_get_default jd ''redirect_url'' (JStr []))
                         (py_get_default c ''display_name'' (JStr []))
                    then (let J1 = add_key job_id J
                          in (case location_name jd of
                                None \<Rightarrow> (T1, L, J1, K)
                              | Some s \<Rightarrow>
                                  (case parse_location s of
                                     Inl e \<Rightarrow> (T1, L, J1, K)
                                   | Inr (dn, city) \<Rightarrow>
                                       (let L1 = add_key city L
                                        in (T1, L1, J1,
                                            add_key (the_index job_id J1, the_index city L1, dn) K)))))
                    else (T1, L, J, K))
            | _ \<Rightarrow> (T, L, J, K))
       | _ \<Rightarrow> (T, L, J, K)))"

definition kext :: "keys \<Rightarrow> keys \<Rightarrow> bool" where
  "kext a b = (case a of (T, L, J, K) \<Rightarrow> case b of (T', L', J', K') \<Rightarrow>
     prefix T T' \<and> prefix L L' \<and> prefix J J' \<and> prefix K K')"

text \<open>The records that the loop of one call gets to: none when the call ends before the
  loop, otherwise those before the first element that is not an object.\<close>

definition processed_records :: "(string \<Rightarrow> file_result) \<Rightarrow> string \<Rightarrow> json list" where
  "processed_records fs json_path =
     (case date_of_path json_path of
        Inl e \<Rightarrow> []
      | Inr job_date \<Rightarrow>
          (case fs json_path of
             Content jobs_data \<Rightarrow>
               (case py_iter jobs_data of Inl e \<Rightarrow> [] | Inr records \<Rightarrow> takeWhile is_dict records)
           | _ \<Rightarrow> []))"

definition loop_db :: "(db \<times> log_entry list) + (db \<times> log_entry list) \<Rightarrow> db" where
  "loop_db res = (case res of Inl st \<Rightarrow> fst st | Inr st \<Rightarrow> fst st)"

text \<open>The new coordinates of an existing JobLocation row (lines 157--165).\<close>

definition new_coords :: "json \<Rightarrow> json \<Rightarrow> JobLocation \<Rightarrow> JobLocation" where
  "new_coords latitude longitude row =
     row\<lparr>JL_latitude := (if latitude \<noteq> JNull \<and> JL_latitude row \<noteq> latitude
                           then latitude else JL_latitude row),
          JL_longitude := (if longitude \<noteq> JNull \<and> JL_longitude row \<noteq> longitude
                           then longitude else JL_longitude row)\<rparr>"

subsection \<open>Sample data\<close>

text \<open>The one-record snapshot of \<^verbatim>\<open>tests/test_database.py\<close>.\<close>

definition test_snapshot :: json where
  "test_snapshot = JArr [JObj [(''id'', JStr ''job_1''), (''title'', JStr ''Python Developer''),
     (''description'', JStr ''Test job''), (''salary_is_predicted'', JStr ''0''),
     (''redirect_url'', JStr ''http://example.com''),
     (''company'', JObj [(''display_name'', JStr ''ExampleCo'')]),
     (''location'', JObj [(''display_name'', JStr ''Berlin'')]),
     (''latitude'', JNum 52.52), (''longitude'', JNum 13.405)]]"

text \<open>The database that importing \<open>test_snapshot\<close> from
  \<^verbatim>\<open>all_jobs_2025-09-08.json\<close> into the empty database leaves, and the same posting as a
  later snapshot would carry it: new title, predicted salary, moved latitude.\<close>

definition test_db :: db where
  "test_db = \<lparr>techs = [''Python''], locations = [''Berlin''],
       jobs = [\<lparr>Job_job_id = JStr ''job_1'', Job_title = JStr ''Python Developer'',
           Job_description = JStr ''Test job'', Job_salary_is_predicted = False,
           Job_redirect_url = JStr ''http://example.com'', Job_company = JStr ''ExampleCo'',
           Job_tech = 0, Job_date = Some (Date 2025 9 8)\<rparr>],
       job_locations = [\<lparr>JL_job = 0, JL_location = 0, JL_district = None,
           JL_latitude = JNum 52.52, JL_longitude = JNum 13.405\<rparr>]\<rparr>"

definition later_record :: "(string \<times> json) list" where
  "later_record = [(''id'', JStr ''job_1''), (''title'', JStr ''Senior Java Developer''),
     (''description'', JStr ''Test job''), (''salary_is_predicted'', JStr ''1''),
     (''redirect_url'', JStr ''http://example.com''),
     (''company'', JObj [(''display_name'', JStr ''ExampleCo'')]),
     (''location'', JObj [(''display_name'', JStr ''Berlin'')]),
     (''latitude'', JNum 53), (''longitude'', JNum 13.405)]"

section \<open>Properties\<close>

subsection \<open>The classifier\<close>

lemma lower_KNOWN_TECHS:
  "map py_lower KNOWN_TECHS = [''sap'', ''clojure'', ''c#'', ''java'', ''c++'', ''php'', ''python'',
     ''javascript'', ''aws'', ''vhdl'', ''cobol'', ''rpg'', ''delphi'', ''angular'', ''typescript'',
     ''go'', ''ruby'', ''sql'', ''pl/sql'', ''abap'', ''nodejs'', ''flutter'', ''scala'', ''kotlin'',
     ''rust'', ''.net'', ''ios'', ''android'']"
  by code_simp

lemma ignore_words_no_tech:
  "w \<in> set IGNORE_WORDS \<Longrightarrow> w \<notin> set (map py_lower KNOWN_TECHS)"
  unfolding lower_KNOWN_TECHS unfolding IGNORE_WORDS_def by auto

lemma find_tech_None:
  "w \<in> set IGNORE_WORDS \<Longrightarrow> find (\<lambda>tech. w = py_lower tech) KNOWN_TECHS = None"
  using ignore_words_no_tech [of w] by (auto simp add: find_None_iff)

lemma scan_words_first_vocab_match:
  "scan_words KNOWN_TECHS ws = first_vocab_match KNOWN_TECHS ws"
proof (induction ws)
  case Nil
  show ?case by simp
next
  case (Cons w ws)
  have sym: "(\<lambda>tech. w = py_lower tech) = (\<lambda>member. py_lower member = w)"
    by auto
  show ?case
  proof (cases "w \<in> set IGNORE_WORDS")
    case True
    with find_tech_None have "find (\<lambda>tech. w = py_lower tech) KNOWN_TECHS = None"
      by simp
    with True Cons sym show ?thesis by simp
  next
    case False
    with Cons sym show ?thesis by (simp split: option.split)
  qed
qed

lemma find_unique:
  assumes "inj_on f (set xs)" and "set ys = set xs"
  shows "find (\<lambda>t. w = f t) ys = find (\<lambda>t. w = f t) xs"
proof (cases "find (\<lambda>t. w = f t) xs")
  case None
  then have "\<forall>t\<in>set ys. w \<noteq> f t" using assms(2) by (auto simp add: find_None_iff)
  then have "find (\<lambda>t. w = f t) ys = None" by (simp add: find_None_iff)
  with None show ?thesis by simp
next
  case (Some t)
  then have t: "t \<in> set xs" "w = f t" by (auto simp add: find_Some_iff)
  then have "find (\<lambda>t. w = f t) ys \<noteq> None" using assms(2) by (auto simp add: find_None_iff)
  then obtain t' where t': "find (\<lambda>t. w = f t) ys = Some t'" by auto
  then have "t' \<in> set ys" "w = f t'" by (auto simp add: find_Some_iff)
  with t assms have "t' = t" by (auto dest: inj_onD)
  with t' Some show ?thesis by simp
qed

lemma extract_tech_order_independent:
  assumes "set vocab = set KNOWN_TECHS"
  shows "extract_tech_in vocab title = extract_tech title"
proof -
  have "distinct (map py_lower KNOWN_TECHS)" unfolding lower_KNOWN_TECHS by simp
  then have inj: "inj_on py_lower (set KNOWN_TECHS)" by (simp add: distinct_map)
  have "scan_words vocab ws = scan_words KNOWN_TECHS ws" for ws
    by (induction ws) (simp_all add: find_unique [OF inj assms] split: option.split)
  then show ?thesis by (simp add: extract_tech_def extract_tech_in_def)
qed

text \<open>
  C4: the classifier returns the first vocabulary member whose lower-cased form equals a
  token of the cleaned, lower-cased title, tokens taken left to right, and "Other" when
  there is none; skipping the stop words changes nothing, since no stop word is a
  lower-cased vocabulary member. The lower-cased vocabulary has no duplicates, so the
  order in which the set is enumerated cannot matter. The four titles of the test
  classify as Python, JavaScript, Other and Java.
\<close>

theorem extract_tech_first_match:
  "extract_tech title = first_vocab_match KNOWN_TECHS (py_split (py_lower (clean_title title)))
   \<and> distinct (map py_lower KNOWN_TECHS)
   \<and> extract_tech ''Senior Python Entwickler'' = ''Python''
   \<and> extract_tech ''JavaScript Developer'' = ''JavaScript''
   \<and> extract_tech ''Unknown Role'' = ''Other''
   \<and> extract_tech ''Fullstack Java / Python Developer'' = ''Java''"
proof -
  have a: "extract_tech title = first_vocab_match KNOWN_TECHS (py_split (py_lower (clean_title title)))"
    by (simp add: extract_tech_def extract_tech_in_def scan_words_first_vocab_match)
  have b: "distinct (map py_lower KNOWN_TECHS)" unfolding lower_KNOWN_TECHS by simp
  have c: "extract_tech ''Senior Python Entwickler'' = ''Python''" by code_simp
  have d: "extract_tech ''JavaScript Developer'' = ''JavaScript''" by code_simp
  have e: "extract_tech ''Unknown Role'' = ''Other''" by code_simp
  have f: "extract_tech ''Fullstack Java / Python Developer'' = ''Java''" by code_simp
  from a b c d e f show ?thesis by blast
qed

lemma lazy_star_Cons: "\<exists>rs. lazy_star c s = s # rs"
  by (cases s) auto

lemma slash_alt_first:
  "\<exists>rs. rmatch (Seq (Atom (CChar (CHR ''/''))) (LazyStar CAny)) (CHR ''/'' # rest) = rest # rs"
  using lazy_star_Cons [of CAny rest] by auto

lemma close_paren_length: "close_paren cs = Some rest \<Longrightarrow> length rest < Suc (length cs)"
  by (induction cs) (auto split: if_splits)

lemma paren_first:
  "close_paren cs = Some rest \<Longrightarrow>
   \<exists>more. concat (map (rmatch (Atom (CChar (CHR '')'')))) (lazy_star CAny cs)) = rest # more"
  by (induction cs) (auto split: if_splits)

lemma paren_none:
  "close_paren cs = None \<Longrightarrow>
   concat (map (rmatch (Atom (CChar (CHR '')'')))) (lazy_star CAny cs)) = []"
  by (induction cs) (auto split: if_splits)

lemma rmatch_title_paren:
  "rmatch title_pattern (CHR ''('' # cs)
     = concat (map (rmatch (Atom (CChar (CHR '')'')))) (lazy_star CAny cs))"
  by (simp add: title_pattern_def)

lemma clean_title_blank_separators:
  "re_sub_from title_pattern '' '' False title = blank_separators title"
proof (induction title rule: blank_separators.induct)
  case 1
  show ?case by (subst re_sub_from.simps) (simp add: title_pattern_def)
next
  case (2 c cs)
  show ?case
  proof (cases "c = CHR ''(''")
    case True
    show ?thesis
    proof (cases "close_paren cs")
      case None
      with True 2 have IH: "re_sub_from title_pattern '' '' False cs = blank_separators cs"
        by simp
      from None have "rmatch title_pattern (c # cs) = []"
        by (simp add: True rmatch_title_paren paren_none)
      with IH True None show ?thesis
        by (subst re_sub_from.simps) simp
    next
      case (Some rest)
      with True 2 have IH: "re_sub_from title_pattern '' '' False rest = blank_separators rest"
        by simp
      from Some obtain more where "rmatch title_pattern (c # cs) = rest # more"
        using paren_first [of cs rest] by (auto simp add: True rmatch_title_paren)
      moreover have "length rest < length (c # cs)"
        using close_paren_length [OF Some] by simp
      ultimately show ?thesis using IH True Some
        by (subst re_sub_from.simps) simp
    qed
  next
    case False
    with 2 have IH: "re_sub_from title_pattern '' '' False cs = blank_separators cs"
      by simp
    obtain rs where rs: "lazy_star CAny cs = cs # rs" using lazy_star_Cons by blast
    show ?thesis
    proof (cases "c = CHR ''/''")
      case True
      then have "rmatch title_pattern (c # cs) = cs # rs"
        by (simp add: title_pattern_def rs)
      then show ?thesis using IH True
        by (subst re_sub_from.simps) (simp add: blank_sep_def)
    next
      case F1: False
      show ?thesis
      proof (cases "c = CHR ''-'' \<or> c = CHR '',''")
        case True
        with False F1 have "rmatch title_pattern (c # cs) = [cs]"
          by (auto simp add: title_pattern_def)
        then show ?thesis using IH True False
          by (subst re_sub_from.simps) (auto simp add: blank_sep_def)
      next
        case F2: False
        with False F1 have "rmatch title_pattern (c # cs) = []"
          by (auto simp add: title_pattern_def)
        then show ?thesis using IH F2 F1 False
          by (subst re_sub_from.simps) (auto simp add: blank_sep_def)
      qed
    qed
  qed
qed

lemma blank_separators_no_paren:
  "CHR ''('' \<notin> set title \<Longrightarrow> blank_separators title = map blank_sep title"
  by (induction title) auto

text \<open>
  C9, as amended: the alternative \<^verbatim>\<open>/.*?\<close> matches the slash alone (the lazy
  \<^verbatim>\<open>.*?\<close> at its end takes nothing). The cleaning step removes parenthesised segments
  and replaces each slash, hyphen and comma outside them by one space; every other
  character outside them stays, the text after a slash included. In a title without an
  opening parenthesis that is a character-by-character replacement.
\<close>

theorem slash_only_removed:
  "hd (rmatch (Seq (Atom (CChar (CHR ''/''))) (LazyStar CAny)) (CHR ''/'' # rest)) = rest
   \<and> clean_title title = blank_separators title
   \<and> (CHR ''('' \<notin> set title \<longrightarrow> clean_title title = map blank_sep title)"
  using slash_alt_first [of rest] clean_title_blank_separators [of title]
    blank_separators_no_paren [of title]
  by (auto simp add: clean_title_def re_sub_def)

theorem slash_only_removed_witness:
  "CHR ''('' \<notin> set ''C/C++ Developer'' \<and> clean_title ''C/C++ Developer'' = ''C C++ Developer''"
  using slash_only_removed [of "[]" "''C/C++ Developer''"]
  by (simp add: blank_sep_def)

text \<open>C9 as stated fails: the text after the slash survives the cleaning and decides the
  label.\<close>

theorem slash_text_kept:
  "clean_title ''Backend/Python'' = ''Backend Python'' \<and> extract_tech ''Backend/Python'' = ''Python''"
  by code_simp


subsection \<open>Parsing the location name\<close>

lemma split_on_nonempty: "split_on sep s \<noteq> []"
  by (induction s) (auto split: list.splits)

lemma split_on_no_sep: "sep \<notin> set s \<Longrightarrow> split_on sep s = [s]"
  by (induction s) auto

lemma split_on_append:
  "sep \<notin> set a \<Longrightarrow> split_on sep (a @ sep # rest) = a # split_on sep rest"
  by (induction a) auto

lemma length_split_on: "length (split_on sep s) = Suc (count_list s sep)"
  by (induction s) (auto split: list.splits)

lemma split_on_two: "sep \<in> set rest \<Longrightarrow> 2 \<le> length (split_on sep rest)"
  using count_list_0_iff [of rest sep] by (simp add: length_split_on Suc_le_eq)

text \<open>C6 as stated fails for three parts: the city is the first part, not the whole
  string.\<close>

theorem three_parts_first_is_city:
  "parse_location ''Mitte, Berlin, Deutschland'' = Inr (None, ''Mitte'')
   \<and> locations (snd (process_job None
        (JObj [(''id'', JStr ''1''),
               (''location'', JObj [(''display_name'', JStr ''Mitte, Berlin, Deutschland'')])])
        empty_db)) = [''Mitte'']"
  by code_simp

subsection \<open>What the import returns and logs\<close>

lemma import_record_dict:
  "is_dict job_data \<Longrightarrow> \<exists>st'. import_record job_date job_data st = Inr st'"
  by (cases job_data) (auto simp add: import_record_def split: prod.splits option.splits)

lemma import_loop_dicts:
  "list_all is_dict records \<Longrightarrow> \<exists>st'. import_loop job_date records st = Inr st'"
proof (induction records arbitrary: st)
  case Nil
  show ?case by simp
next
  case (Cons r rs)
  then obtain st1 where "import_record job_date r st = Inr st1"
    using import_record_dict [of r job_date st] by auto
  with Cons show ?case by simp
qed

text \<open>
  C3, as amended: \<^verbatim>\<open>import_jobs_from_json\<close> returns \<^verbatim>\<open>None\<close> to its caller on
  every path; it keeps no counts. When the date is derived (or absent), the file decodes to
  a list and every record is an object, the last thing it logs is the completion message,
  whatever happened to the single records.
\<close>

theorem import_returns_none:
  "fst (import_jobs_from_json fs json_path st) = JNull
   \<and> (date_of_path json_path = Inr job_date \<and> fs json_path = Content (JArr records)
        \<and> list_all is_dict records \<longrightarrow>
      last (snd (snd (import_jobs_from_json fs json_path st)))
        = Info ''Job import completed successfully.'')"
proof (intro conjI impI)
  show "fst (import_jobs_from_json fs json_path st) = JNull"
    by (simp add: import_jobs_from_json_def Let_def
        split: sum.splits file_result.splits prod.splits)
next
  assume h: "date_of_path json_path = Inr job_date \<and> fs json_path = Content (JArr records)
        \<and> list_all is_dict records"
  define log1 where "log1 = (if job_date = None
                       then snd st @ [Warning (''Failed to extract date from '' @ json_path)]
                       else snd st)"
  from h obtain st' where "import_loop job_date records (fst st, log1) = Inr st'"
    using import_loop_dicts by blast
  with h show "last (snd (snd (import_jobs_from_json fs json_path st)))
        = Info ''Job import completed successfully.''"
    by (cases st') (simp add: import_jobs_from_json_def log1_def)
qed

theorem import_returns_none_witness:
  "date_of_path ''all_jobs_2025-09-08.json'' = Inr (Some (Date 2025 9 8))
   \<and> list_all is_dict [JObj [(''id'', JStr ''job_1'')]]
   \<and> last (snd (snd (import_jobs_from_json (\<lambda>p. Content (JArr [JObj [(''id'', JStr ''job_1'')]]))
        ''all_jobs_2025-09-08.json'' (empty_db, []))))
        = Info ''Job import completed successfully.''"
proof -
  have d: "date_of_path ''all_jobs_2025-09-08.json'' = Inr (Some (Date 2025 9 8))"
    by code_simp
  have l: "list_all is_dict [JObj [(''id'', JStr ''job_1'')]]" by simp
  from d l import_returns_none [of "\<lambda>p. Content (JArr [JObj [(''id'', JStr ''job_1'')]])"
      "''all_jobs_2025-09-08.json''" "(empty_db, [])" "Some (Date 2025 9 8)"
      "[JObj [(''id'', JStr ''job_1'')]]"]
  show ?thesis by simp
qed

text \<open>C3 as stated fails: on the test's snapshot the caller receives \<^verbatim>\<open>None\<close>, and the
  log holds the completion message only.\<close>

theorem import_no_report:
  "import_jobs_from_json (\<lambda>p. Content test_snapshot) ''all_jobs_2025-09-08.json'' (empty_db, [])
   = (JNull,
      \<lparr>techs = [''Python''], locations = [''Berlin''],
       jobs = [\<lparr>Job_job_id = JStr ''job_1'', Job_title = JStr ''Python Developer'',
           Job_description = JStr ''Test job'', Job_salary_is_predicted = False,
           Job_redirect_url = JStr ''http://example.com'', Job_company = JStr ''ExampleCo'',
           Job_tech = 0, Job_date = Some (Date 2025 9 8)\<rparr>],
       job_locations = [\<lparr>JL_job = 0, JL_location = 0, JL_district = None,
           JL_latitude = JNum 52.52, JL_longitude = JNum 13.405\<rparr>]\<rparr>,
      [Info ''Job import completed successfully.''])"
  by code_simp

text \<open>
  C7: a path without a date-shaped substring imports with an absent date and a warning.
  A path whose date-shaped substring is not a calendar date (30 February) does not:
  \<^verbatim>\<open>strptime\<close> raises, the outer handler logs the exception, and no record is
  processed.
\<close>

theorem invalid_date_aborts:
  "import_jobs_from_json (\<lambda>p. Content test_snapshot) ''all_jobs_2025-02-30.json'' (empty_db, [])
     = (JNull, empty_db, [unexpected_error ''all_jobs_2025-02-30.json''])
   \<and> import_jobs_from_json (\<lambda>p. Content test_snapshot) ''all_jobs.json'' (empty_db, [])
     = (JNull,
      \<lparr>techs = [''Python''], locations = [''Berlin''],
       jobs = [\<lparr>Job_job_id = JStr ''job_1'', Job_title = JStr ''Python Developer'',
           Job_description = JStr ''Test job'', Job_salary_is_predicted = False,
           Job_redirect_url = JStr ''http://example.com'', Job_company = JStr ''ExampleCo'',
           Job_tech = 0, Job_date = None\<rparr>],
       job_locations = [\<lparr>JL_job = 0, JL_location = 0, JL_district = None,
           JL_latitude = JNum 52.52, JL_longitude = JNum 13.405\<rparr>]\<rparr>,
      [Warning ''Failed to extract date from all_jobs.json'',
       Info ''Job import completed successfully.''])"
  by code_simp

subsection \<open>The tables: what each operation does to the keys\<close>

lemma first_index_Some:
  "first_index P xs = Some i \<Longrightarrow> i < length xs \<and> P (xs ! i)"
  by (induction xs arbitrary: i) (auto split: if_splits)

lemma first_index_None_iff: "first_index P xs = None \<longleftrightarrow> (\<forall>x\<in>set xs. \<not> P x)"
  by (induction xs) auto

lemma first_index_ex: "x \<in> set xs \<Longrightarrow> P x \<Longrightarrow> \<exists>i. first_index P xs = Some i"
  using first_index_None_iff [of P xs] by (cases "first_index P xs") auto

lemma first_index_append:
  "first_index P (xs @ ys) =
     (case first_index P xs of
        Some i \<Rightarrow> Some i
      | None \<Rightarrow> map_option (\<lambda>j. length xs + j) (first_index P ys))"
proof (induction xs)
  case Nil
  show ?case by (cases "first_index P ys") simp_all
next
  case (Cons x xs)
  then show ?case
    by (cases "first_index P ys") (auto split: option.splits)
qed

lemma first_index_map: "first_index P (map f xs) = first_index (\<lambda>x. P (f x)) xs"
  by (induction xs) auto

lemma first_index_prefix:
  "prefix xs ys \<Longrightarrow> first_index P xs = Some i \<Longrightarrow> first_index P ys = Some i"
  by (auto simp add: prefix_def first_index_append)

lemma peewee_eq_iff: "peewee_eq col v \<longleftrightarrow> col = v"
  by (auto simp add: peewee_eq_def split: option.splits)

lemma jl_match_iff: "jl_match job loc dn r \<longleftrightarrow> jl_key r = (job, loc, dn)"
  by (auto simp add: jl_match_def jl_key_def peewee_eq_iff)

lemma first_index_jl:
  "first_index (jl_match job loc dn) rows = first_index (\<lambda>k. k = (job, loc, dn)) (map jl_key rows)"
  by (simp add: first_index_map jl_match_iff [abs_def])

lemma name_get_or_create_cases:
  assumes "name_get_or_create name rows = ((i, c), rows')"
  shows "first_index (\<lambda>n. n = name) rows' = Some i"
    and "rows' = (if name \<in> set rows then rows else rows @ [name])"
proof -
  show "first_index (\<lambda>n. n = name) rows' = Some i"
    using assms
    by (auto simp add: name_get_or_create_def first_index_append split: option.splits)
  show "rows' = (if name \<in> set rows then rows else rows @ [name])"
    using assms first_index_None_iff [of "\<lambda>n. n = name" rows]
    by (auto simp add: name_get_or_create_def split: option.splits)
qed

lemma parse_location_total: "\<exists>dn city. parse_location s = Inr (dn, city)"
  using split_on_nonempty [of "CHR '',''" s]
  by (cases "split_on (CHR '','') s") (auto simp add: parse_location_def Let_def)

lemma first_index_add_key:
  "\<exists>i. first_index (\<lambda>n. n = k) (add_key k ks) = Some i"
  by (rule first_index_ex [of k]) (auto simp add: add_key_def)

lemma name_get_or_create_eff:
  assumes "name_get_or_create name rows = ((i, c), rows')"
  shows "rows' = add_key name rows \<and> first_index (\<lambda>n. n = name) rows' = Some i"
  using name_get_or_create_cases [OF assms] by (simp add: add_key_def)

lemma Tech_get_or_create_eff:
  assumes "Tech_get_or_create name d = ((i, c), d1)"
  shows "d1 = d\<lparr>techs := add_key name (techs d)\<rparr> \<and> first_index (\<lambda>n. n = name) (techs d1) = Some i"
proof -
  obtain res rows where r: "name_get_or_create name (techs d) = (res, rows)"
    by (cases "name_get_or_create name (techs d)")
  with assms have "res = (i, c)" and d1: "d1 = d\<lparr>techs := rows\<rparr>"
    by (auto simp add: Tech_get_or_create_def)
  with r name_get_or_create_eff [of name "techs d" i c rows] show ?thesis by auto
qed

lemma Location_get_or_create_eff:
  assumes "Location_get_or_create name d = ((i, c), d1)"
  shows "d1 = d\<lparr>locations := add_key name (locations d)\<rparr>
     \<and> first_index (\<lambda>n. n = name) (locations d1) = Some i"
proof -
  obtain res rows where r: "name_get_or_create name (locations d) = (res, rows)"
    by (cases "name_get_or_create name (locations d)")
  with assms have "res = (i, c)" and d1: "d1 = d\<lparr>locations := rows\<rparr>"
    by (auto simp add: Location_get_or_create_def)
  with r name_get_or_create_eff [of name "locations d" i c rows] show ?thesis by auto
qed

lemma first_index_job_ids:
  "first_index (\<lambda>r. Job_job_id r = k) (jobs d) = first_index (\<lambda>x. x = k) (job_ids d)"
  by (simp add: job_ids_def first_index_map)

lemma Job_get_or_create_Inl:
  assumes "Job_get_or_create row d = Inl e"
  shows "e = IntegrityError \<and> \<not> Job_not_null row"
  using assms by (auto simp add: Job_get_or_create_def split: option.splits if_splits)

lemma Job_get_or_create_found:
  assumes "Job_get_or_create row d = Inr ((i, False), d2)"
  shows "d2 = d \<and> first_index (\<lambda>r. Job_job_id r = Job_job_id row) (jobs d) = Some i"
  using assms by (auto simp add: Job_get_or_create_def split: option.splits if_splits)

lemma Job_get_or_create_created:
  assumes "Job_get_or_create row d = Inr ((i, True), d2)"
  shows "d2 = d\<lparr>jobs := jobs d @ [row]\<rparr> \<and> i = length (jobs d) \<and> Job_not_null row
     \<and> first_index (\<lambda>r. Job_job_id r = Job_job_id row) (jobs d) = None"
  using assms by (auto simp add: Job_get_or_create_def split: option.splits if_splits)


lemma upsert_job_eff:
  assumes "upsert_job job_date job_id title description sal url company d = (res, d1)"
  shows "techs d1 = add_key (tech_name_of title) (techs d)
    \<and> locations d1 = locations d
    \<and> job_locations d1 = job_locations d
    \<and> job_ids d1 = (if creatable job_id title description url company
                        then add_key job_id (job_ids d) else job_ids d)
    \<and> (if creatable job_id title description url company
         then (\<exists>job. res = Inr job \<and> first_index (\<lambda>k. k = job_id) (job_ids d1) = Some job)
         else res = Inl IntegrityError)"
proof -
  define tn where "tn = tech_name_of title"
  obtain tech c0 d0 where t: "Tech_get_or_create tn d = ((tech, c0), d0)"
    by (metis prod.exhaust)
  note t_eff = Tech_get_or_create_eff [OF t]
  define row where "row = \<lparr>Job_job_id = job_id, Job_title = title, Job_description = description,
                Job_salary_is_predicted = sal, Job_redirect_url = url,
                Job_company = company, Job_tech = tech, Job_date = job_date\<rparr>"
  have nn: "Job_not_null row = creatable job_id title description url company"
    by (simp add: Job_not_null_def creatable_def row_def)
  have unf: "upsert_job job_date job_id title description sal url company d =
     (case Job_get_or_create row d0 of
           Inl e \<Rightarrow> (Inl e, d0)
         | Inr ((job, created), d2) \<Rightarrow>
             if \<not> created then
               (case Job_save job
                   ((jobs d2 ! job)\<lparr>Job_title := title, Job_description := description,
                      Job_salary_is_predicted := sal,
                      Job_redirect_url := url, Job_company := company,
                      Job_tech := tech\<rparr>) d2 of
                  Inl e \<Rightarrow> (Inl e, d2)
                | Inr d3 \<Rightarrow> (Inr job, d3))
             else (Inr job, d2))"
    using t by (simp add: upsert_job_def tn_def tech_name_of_def row_def Let_def)
  show ?thesis
  proof (cases "Job_get_or_create row d0")
    case (Inl e)
    with Job_get_or_create_Inl [OF Inl] assms unf nn t_eff
    show ?thesis
      by (auto simp add: tn_def job_ids_def)
  next
    case (Inr p)
    then obtain job created d2 where p: "Job_get_or_create row d0 = Inr ((job, created), d2)"
      by (metis prod.exhaust)
    show ?thesis
    proof (cases created)
      case True
      with p have c: "Job_get_or_create row d0 = Inr ((job, True), d2)" by simp
      note ce = Job_get_or_create_created [OF c]
      from ce have notin: "job_id \<notin> set (job_ids d0)"
        using first_index_None_iff [of "\<lambda>r. Job_job_id r = job_id" "jobs d0"]
        by (auto simp add: row_def job_ids_def)
      from assms unf c have r: "res = Inr job" "d1 = d2" by auto
      have fi: "first_index (\<lambda>k. k = job_id) (job_ids d0 @ [job_id]) = Some (length (jobs d0))"
        using notin first_index_None_iff [of "\<lambda>k. k = job_id" "job_ids d0"]
        by (auto simp add: first_index_append job_ids_def)
      from ce r t_eff nn notin fi show ?thesis
        by (auto simp add: tn_def job_ids_def add_key_def row_def)
    next
      case False
      with p have c: "Job_get_or_create row d0 = Inr ((job, False), d2)" by simp
      note fe = Job_get_or_create_found [OF c]
      then have fi: "first_index (\<lambda>k. k = job_id) (job_ids d0) = Some job"
        by (simp add: first_index_job_ids row_def)
      then have isin: "job_id \<in> set (job_ids d0)" and jlt: "job < length (jobs d0)"
        and jid: "Job_job_id (jobs d0 ! job) = job_id"
        using first_index_Some [of "\<lambda>k. k = job_id" "job_ids d0" job]
        by (auto simp add: job_ids_def)
      define row' where "row' = (jobs d0 ! job)\<lparr>Job_title := title, Job_description := description,
                      Job_salary_is_predicted := sal,
                      Job_redirect_url := url, Job_company := company,
                      Job_tech := tech\<rparr>"
      have nn': "Job_not_null row' = creatable job_id title description url company"
        using jid by (simp add: Job_not_null_def creatable_def row'_def)
      have ids: "map Job_job_id ((jobs d0)[job := row']) = map Job_job_id (jobs d0)"
        using jid jlt by (simp add: map_update row'_def list_update_same_conv)
      from assms unf c fe have "(res, d1) = (case Job_save job row' d0 of
                  Inl e \<Rightarrow> (Inl e, d0)
                | Inr d3 \<Rightarrow> (Inr job, d3))"
        by (simp add: row'_def)
      with nn' ids fi isin t_eff show ?thesis
        by (auto simp add: Job_save_def tn_def job_ids_def add_key_def split: if_splits)
    qed
  qed
qed

lemma the_index_add_key:
  "first_index (\<lambda>n. n = k) ks = Some i \<Longrightarrow> the_index k ks = i"
  by (simp add: the_index_def)

lemma new_coords_id:
  "\<not> (lat \<noteq> JNull \<and> JL_latitude row \<noteq> lat) \<Longrightarrow>
   \<not> (lon \<noteq> JNull \<and> JL_longitude row \<noteq> lon) \<Longrightarrow> new_coords lat lon row = row"
  by (cases row) (auto simp add: new_coords_def)

lemma upsert_job_location_unf:
  assumes "parse_location s = Inr (dn, city)"
    and "Location_get_or_create city d = ((l, c0), d1)"
    and "first_index (jl_match job l dn) (job_locations d1) = Some i"
  shows "upsert_job_location job s lat lon d =
        (if (lat \<noteq> JNull \<and> JL_latitude (job_locations d1 ! i) \<noteq> lat)
            \<or> (lon \<noteq> JNull \<and> JL_longitude (job_locations d1 ! i) \<noteq> lon)
         then (None, d1\<lparr>job_locations :=
                 (job_locations d1)[i := new_coords lat lon (job_locations d1 ! i)]\<rparr>)
         else (None, d1))"
  using assms
  by (cases "job_locations d1 ! i")
     (auto simp add: upsert_job_location_def new_coords_def Let_def)

lemma upsert_job_location_eff:
  assumes p: "parse_location s = Inr (dn, city)"
    and u: "upsert_job_location job s lat lon d = (res, d2)"
  shows "res = None \<and> techs d2 = techs d \<and> jobs d2 = jobs d
    \<and> locations d2 = add_key city (locations d)
    \<and> jl_keys d2 = add_key (job, the_index city (locations d2), dn) (jl_keys d)"
proof -
  obtain l c0 d1 where lg: "Location_get_or_create city d = ((l, c0), d1)"
    by (metis prod.exhaust)
  note l_eff = Location_get_or_create_eff [OF lg, THEN conjunct1]
  note l_fi = Location_get_or_create_eff [OF lg, THEN conjunct2]
  have l: "the_index city (locations d1) = l" using l_fi by (simp add: the_index_def)
  have jl1: "job_locations d1 = job_locations d" using l_eff by simp
  have t1: "techs d1 = techs d" using l_eff by simp
  have j1: "jobs d1 = jobs d" using l_eff by simp
  have l1: "locations d1 = add_key city (locations d)" using l_eff by simp
  show ?thesis
  proof (cases "first_index (jl_match job l dn) (job_locations d1)")
    case None
    then have notin: "(job, l, dn) \<notin> set (jl_keys d)"
      using first_index_None_iff [of "jl_match job l dn" "job_locations d1"]
      by (auto simp add: jl1 jl_keys_def jl_match_iff image_iff)
    from None u p lg have r: "res = None"
      and d2: "d2 = d1\<lparr>job_locations := job_locations d1 @
                    [\<lparr>JL_job = job, JL_location = l, JL_district = dn,
                      JL_latitude = lat, JL_longitude = lon\<rparr>]\<rparr>"
      by (simp_all add: upsert_job_location_def)
    have k2: "jl_keys d2 = jl_keys d @ [(job, l, dn)]"
      by (simp add: d2 jl_keys_def jl_key_def jl1)
    have l2: "locations d2 = locations d1" by (simp add: d2)
    have A: "locations d2 = add_key city (locations d)" by (simp add: l2 l1)
    have B: "the_index city (locations d2) = l" by (simp add: l2 l)
    have C: "jl_keys d2 = add_key (job, l, dn) (jl_keys d)"
      using notin by (simp add: k2 add_key_def)
    have T: "techs d2 = techs d" by (simp add: d2 t1)
    have J: "jobs d2 = jobs d" by (simp add: d2 j1)
    show ?thesis unfolding B using r A C T J by simp
  next
    case (Some i)
    then have i: "i < length (job_locations d1)" and k: "jl_key (job_locations d1 ! i) = (job, l, dn)"
      using first_index_Some [of "jl_match job l dn" "job_locations d1" i]
      by (simp_all add: jl_match_iff)
    have "jl_keys d1 ! i = (job, l, dn)" using i k by (simp add: jl_keys_def)
    moreover have "i < length (jl_keys d1)" using i by (simp add: jl_keys_def)
    ultimately have "(job, l, dn) \<in> set (jl_keys d1)" by (metis nth_mem)
    then have isin: "(job, l, dn) \<in> set (jl_keys d)" by (simp add: jl_keys_def jl1)
    define row2 where "row2 = new_coords lat lon (job_locations d1 ! i)"
    have unf: "upsert_job_location job s lat lon d =
        (if (lat \<noteq> JNull \<and> JL_latitude (job_locations d1 ! i) \<noteq> lat)
            \<or> (lon \<noteq> JNull \<and> JL_longitude (job_locations d1 ! i) \<noteq> lon)
         then (None, d1\<lparr>job_locations := (job_locations d1)[i := row2]\<rparr>) else (None, d1))"
      using upsert_job_location_unf [OF p lg Some] by (simp add: row2_def)
    have same: "map jl_key ((job_locations d1)[i := row2]) = map jl_key (job_locations d1)"
      using i by (simp add: map_update new_coords_def jl_key_def list_update_same_conv row2_def)
    have r: "res = None" using u unf by (simp split: if_splits)
    have k2: "jl_keys d2 = jl_keys d" and l2: "locations d2 = locations d1"
      and t2: "techs d2 = techs d" and j2: "jobs d2 = jobs d"
      using u unf same jl1 t1 j1 by (auto simp add: jl_keys_def split: if_splits)
    have A: "locations d2 = add_key city (locations d)" by (simp add: l2 l1)
    have B: "the_index city (locations d2) = l" by (simp add: l2 l)
    have C: "jl_keys d2 = add_key (job, l, dn) (jl_keys d)"
      using isin by (simp add: k2 add_key_def)
    show ?thesis unfolding B using r A C t2 j2 by simp
  qed
qed

lemma upsert_job_location_found:
  assumes p: "parse_location s = Inr (dn, city)"
    and fl: "first_index (\<lambda>n. n = city) (locations d) = Some l"
    and fi: "first_index (jl_match job l dn) (job_locations d) = Some i"
  shows "upsert_job_location job s lat lon d =
     (None, d\<lparr>job_locations := (job_locations d)[i := new_coords lat lon (job_locations d ! i)]\<rparr>)"
proof -
  have lg: "Location_get_or_create city d = ((l, False), d)"
    using fl by (simp add: Location_get_or_create_def name_get_or_create_def)
  show ?thesis
    using upsert_job_location_unf [OF p lg fi, of lat lon]
    by (auto simp add: new_coords_id)
qed

lemma location_stage_name:
  "location_name jd = Some s \<Longrightarrow>
   location_stage jd job d = upsert_job_location job s (py_get jd ''latitude'') (py_get jd ''longitude'') d"
  by (auto simp add: location_stage_def location_name_def Let_def split: json.splits if_splits)

lemma location_stage_none:
  "location_name jd = None \<Longrightarrow> snd (location_stage jd job d) = d"
  by (auto simp add: location_stage_def location_name_def Let_def split: json.splits if_splits)

lemma process_job_unf:
  assumes "py_get_default jd ''company'' (JObj []) = JObj c"
  shows "process_job job_date (JObj jd) d =
     (case upsert_job job_date (py_get jd ''id'') (py_get_default jd ''title'' (JStr []))
             (py_get_default jd ''description'' (JStr []))
             (py_get jd ''salary_is_predicted'' = JStr ''1'')
             (py_get_default jd ''redirect_url'' (JStr []))
             (py_get_default c ''display_name'' (JStr [])) d of
        (Inl e, d1) \<Rightarrow> (Some e, d1)
      | (Inr job, d1) \<Rightarrow> location_stage jd job d1)"
  using assms by (simp add: process_job_def Let_def)

lemma process_job_no_company:
  assumes "\<forall>c. py_get_default jd ''company'' (JObj []) \<noteq> JObj c"
  shows "process_job job_date (JObj jd) d = (Some AttributeError, d)"
  using assms by (simp add: process_job_def Let_def split: json.splits)

lemma process_job_nondict:
  "\<not> is_dict r \<Longrightarrow> process_job job_date r d = (Some AttributeError, d)"
  by (cases r) (simp_all add: process_job_def)

lemma key_step_no_company:
  assumes "\<forall>c. py_get_default jd ''company'' (JObj []) \<noteq> JObj c"
  shows "key_step (JObj jd) ks = ks"
  using assms by (cases ks) (simp add: key_step_def split: json.splits)

lemma key_step_nondict: "\<not> is_dict r \<Longrightarrow> key_step r ks = ks"
  by (cases r; cases ks) (simp_all add: key_step_def)

lemma step_keys: "keys_of (step job_date r d) = key_step r (keys_of d)"
proof (cases "is_dict r")
  case False
  then show ?thesis by (simp add: step_def process_job_nondict key_step_nondict)
next
  case True
  then obtain jd where r: "r = JObj jd" by (cases r) auto
  show ?thesis
  proof (cases "\<exists>c. py_get_default jd ''company'' (JObj []) = JObj c")
    case False
    then show ?thesis by (simp add: r step_def process_job_no_company key_step_no_company)
  next
    case True
    then obtain c where c: "py_get_default jd ''company'' (JObj []) = JObj c" by blast
    define job_id where "job_id = py_get jd ''id''"
    define title where "title = py_get_default jd ''title'' (JStr [])"
    define description where "description = py_get_default jd ''description'' (JStr [])"
    define url where "url = py_get_default jd ''redirect_url'' (JStr [])"
    define company where "company = py_get_default c ''display_name'' (JStr [])"
    obtain res d1 where u: "upsert_job job_date job_id title description
             (py_get jd ''salary_is_predicted'' = JStr ''1'') url company d = (res, d1)"
      by (metis prod.exhaust)
    note e = upsert_job_eff [OF u]
    have pj: "process_job job_date (JObj jd) d =
       (case (res, d1) of (Inl e, d1) \<Rightarrow> (Some e, d1) | (Inr job, d1) \<Rightarrow> location_stage jd job d1)"
      using process_job_unf [OF c, of job_date d] u
      by (simp add: job_id_def title_def description_def url_def company_def)
    have ks: "key_step (JObj jd) (keys_of d) =
       (let T1 = add_key (tech_name_of title) (techs d)
                 in if creatable job_id title description url company
                    then (let J1 = add_key job_id (job_ids d)
                          in (case location_name jd of
                                None \<Rightarrow> (T1, locations d, J1, jl_keys d)
                              | Some s \<Rightarrow>
                                  (case parse_location s of
                                     Inl e \<Rightarrow> (T1, locations d, J1, jl_keys d)
                                   | Inr (dn, city) \<Rightarrow>
                                       (let L1 = add_key city (locations d)
                                        in (T1, L1, J1,
                                            add_key (the_index job_id J1, the_index city L1, dn) (jl_keys d))))))
                    else (T1, locations d, job_ids d, jl_keys d))"
      using c by (auto simp add: key_step_def keys_of_def job_id_def title_def description_def
          url_def company_def Let_def split: option.splits sum.splits)
    show ?thesis
    proof (cases "creatable job_id title description url company")
      case False
      with e have "res = Inl IntegrityError" by simp
      with pj have "step job_date r d = d1" by (simp add: step_def r)
      moreover from e have "jl_keys d1 = jl_keys d" by (simp add: jl_keys_def)
      ultimately show ?thesis using e False ks by (simp add: keys_of_def r)
    next
      case True
      with e obtain job where res: "res = Inr job"
        and fi: "first_index (\<lambda>k. k = job_id) (job_ids d1) = Some job" by auto
      from e True have J1: "job_ids d1 = add_key job_id (job_ids d)" by simp
      have ti: "the_index job_id (add_key job_id (job_ids d)) = job"
        using fi J1 by (simp add: the_index_def)
      from pj res have st: "step job_date r d = snd (location_stage jd job d1)"
        by (simp add: step_def r)
      show ?thesis
      proof (cases "location_name jd")
        case None
        with st have "step job_date r d = d1" by (simp add: location_stage_none)
        moreover from e have "jl_keys d1 = jl_keys d" by (simp add: jl_keys_def)
        ultimately show ?thesis using e True ks None by (simp add: keys_of_def r)
      next
        case (Some s)
        obtain dn city where p: "parse_location s = Inr (dn, city)"
          using parse_location_total by blast
        obtain res2 d2 where u2: "upsert_job_location job s (py_get jd ''latitude'')
            (py_get jd ''longitude'') d1 = (res2, d2)" by (metis prod.exhaust)
        note e2 = upsert_job_location_eff [OF p u2]
        from st Some u2 have "step job_date r d = d2" by (simp add: location_stage_name)
        moreover from e have "jl_keys d1 = jl_keys d" by (simp add: jl_keys_def)
        moreover from e have "job_ids d2 = job_ids d1" using e2 by (simp add: job_ids_def)
        ultimately have "keys_of d2 = key_step (JObj jd) (keys_of d)"
          using e e2 True Some p ti by (simp add: ks [unfolded keys_of_def] keys_of_def Let_def)
        with \<open>step job_date r d = d2\<close> show ?thesis by (simp add: r)
      qed
    qed
  qed
qed

subsection \<open>Re-import\<close>

lemma add_key_prefix: "prefix ks (add_key k ks)"
  by (simp add: add_key_def)

lemma add_key_fix: "k \<in> set ks \<Longrightarrow> add_key k ks = ks"
  by (simp add: add_key_def)

lemma in_add_key: "k \<in> set (add_key k ks)"
  by (simp add: add_key_def)

lemma distinct_add_key: "distinct ks \<Longrightarrow> distinct (add_key k ks)"
  by (simp add: add_key_def)

lemma length_add_key: "length ks \<le> length (add_key k ks)"
  by (simp add: add_key_def)

lemma the_index_prefix:
  assumes "k \<in> set ks" and "prefix ks ks'"
  shows "the_index k ks' = the_index k ks"
proof -
  obtain i where i: "first_index (\<lambda>x. x = k) ks = Some i"
    using first_index_ex [of k ks "\<lambda>x. x = k"] assms(1) by auto
  with assms(2) have "first_index (\<lambda>x. x = k) ks' = Some i"
    by (simp add: first_index_prefix)
  with i show ?thesis by (simp add: the_index_def)
qed

lemma kext_refl: "kext ks ks"
  by (cases ks) (simp add: kext_def)

lemma kext_trans: "kext a b \<Longrightarrow> kext b c \<Longrightarrow> kext a c"
  by (cases a; cases b; cases c) (auto simp add: kext_def)

lemma kext_key_step: "kext ks (key_step r ks)"
  by (cases ks)
     (auto simp add: key_step_def kext_def Let_def add_key_prefix
           split: json.splits option.splits sum.splits)

lemma key_step_fix:
  assumes "kext (key_step r ks) ks2"
  shows "key_step r ks2 = ks2"
proof (cases "is_dict r")
  case False
  then show ?thesis by (simp add: key_step_nondict)
next
  case True
  then obtain jd where r: "r = JObj jd" by (cases r) auto
  obtain T L J K where ks: "ks = (T, L, J, K)" by (metis prod.exhaust)
  obtain T2 L2 J2 K2 where ks2: "ks2 = (T2, L2, J2, K2)" by (metis prod.exhaust)
  show ?thesis
  proof (cases "\<exists>c. py_get_default jd ''company'' (JObj []) = JObj c")
    case False
    then show ?thesis by (simp add: r key_step_no_company)
  next
    case True
    then obtain c where c: "py_get_default jd ''company'' (JObj []) = JObj c" by blast
    define job_id where "job_id = py_get jd ''id''"
    define title where "title = py_get_default jd ''title'' (JStr [])"
    define cr where "cr = creatable job_id title (py_get_default jd ''description'' (JStr []))
                         (py_get_default jd ''redirect_url'' (JStr []))
                         (py_get_default c ''display_name'' (JStr []))"
    define tn where "tn = tech_name_of title"
    have unf: "\<And>T L J K. key_step (JObj jd) (T, L, J, K) =
       (if cr then
          (case location_name jd of
             None \<Rightarrow> (add_key tn T, L, add_key job_id J, K)
           | Some s \<Rightarrow>
               (case parse_location s of
                  Inl e \<Rightarrow> (add_key tn T, L, add_key job_id J, K)
                | Inr (dn, city) \<Rightarrow>
                    (add_key tn T, add_key city L, add_key job_id J,
                     add_key (the_index job_id (add_key job_id J),
                              the_index city (add_key city L), dn) K)))
        else (add_key tn T, L, J, K))"
      using c by (auto simp add: key_step_def job_id_def title_def cr_def tn_def Let_def
          split: option.splits sum.splits)
    show ?thesis
    proof (cases cr)
      case False
      with assms have "prefix (add_key tn T) T2"
        by (simp add: r ks ks2 unf kext_def)
      then have "tn \<in> set T2" using in_add_key [of tn T] by (auto simp add: prefix_def)
      with False show ?thesis by (simp add: r ks2 unf add_key_fix)
    next
      case True
      show ?thesis
      proof (cases "location_name jd")
        case None
        with True assms have "prefix (add_key tn T) T2" and "prefix (add_key job_id J) J2"
          by (simp_all add: r ks ks2 unf kext_def)
        then have "tn \<in> set T2" and "job_id \<in> set J2"
          using in_add_key [of tn T] in_add_key [of job_id J] by (auto simp add: prefix_def)
        with True None show ?thesis by (simp add: r ks2 unf add_key_fix)
      next
        case (Some s)
        obtain dn city where p: "parse_location s = Inr (dn, city)"
          using parse_location_total by blast
        define key where "key = (the_index job_id (add_key job_id J),
                              the_index city (add_key city L), dn)"
        from True Some p assms have pT: "prefix (add_key tn T) T2"
          and pJ: "prefix (add_key job_id J) J2"
          and pL: "prefix (add_key city L) L2"
          and pK: "prefix (add_key key K) K2"
          by (simp_all add: r ks ks2 unf kext_def key_def)
        then have iT: "tn \<in> set T2" and iJ: "job_id \<in> set J2" and iL: "city \<in> set L2"
          and iK: "key \<in> set K2"
          using in_add_key [of tn T] in_add_key [of job_id J] in_add_key [of city L]
            in_add_key [of key K] by (auto simp add: prefix_def)
        have "the_index job_id J2 = the_index job_id (add_key job_id J)"
          using the_index_prefix [OF in_add_key pJ] .
        moreover have "the_index city L2 = the_index city (add_key city L)"
          using the_index_prefix [OF in_add_key pL] .
        ultimately have "(the_index job_id (add_key job_id J2),
                              the_index city (add_key city L2), dn) = key"
          using iJ iL by (simp add: add_key_fix key_def)
        with True Some p iT iJ iL iK show ?thesis
          by (simp add: r ks2 unf add_key_fix)
      qed
    qed
  qed
qed

lemma kext_fold: "kext ks (fold key_step rs ks)"
proof (induction rs arbitrary: ks)
  case Nil
  show ?case by (simp add: kext_refl)
next
  case (Cons r rs)
  have "kext ks (key_step r ks)" by (rule kext_key_step)
  moreover have "kext (key_step r ks) (fold key_step rs (key_step r ks))" by (rule Cons)
  ultimately show ?case using kext_trans by auto
qed

lemma fold_key_step_fix:
  "kext (fold key_step rs ks) ks2 \<Longrightarrow> fold key_step rs ks2 = ks2"
proof (induction rs arbitrary: ks)
  case Nil
  show ?case by simp
next
  case (Cons r rs)
  then have e: "kext (fold key_step rs (key_step r ks)) ks2" by simp
  have "kext (key_step r ks) (fold key_step rs (key_step r ks))" by (rule kext_fold)
  with e have "kext (key_step r ks) ks2" using kext_trans by blast
  then have "key_step r ks2 = ks2" by (rule key_step_fix)
  with Cons.IH [OF e] show ?case by simp
qed

lemma distinct_key_step:
  assumes "distinct (snd (snd (snd ks)))"
  shows "distinct (snd (snd (snd (key_step r ks))))"
  using assms
  by (cases ks)
     (auto simp add: key_step_def Let_def distinct_add_key
           split: json.splits option.splits sum.splits)

lemma distinct_fold_key_step:
  "distinct (snd (snd (snd ks))) \<Longrightarrow> distinct (snd (snd (snd (fold key_step rs ks))))"
  by (induction rs arbitrary: ks) (simp_all add: distinct_key_step)

lemma import_record_dict_eq:
  "is_dict r \<Longrightarrow> \<exists>lg'. import_record job_date r (d, lg) = Inr (step job_date r d, lg')"
  by (cases r) (auto simp add: import_record_def step_def split: prod.splits option.splits)

lemma import_record_nondict:
  "\<not> is_dict r \<Longrightarrow> import_record job_date r (d, lg) = Inl (d, lg)"
  by (cases r) (simp_all add: import_record_def process_job_def)

lemma import_loop_keys:
  "keys_of (loop_db (import_loop job_date rs (d, lg)))
     = fold key_step (takeWhile is_dict rs) (keys_of d)"
proof (induction rs arbitrary: d lg)
  case Nil
  show ?case by (simp add: loop_db_def)
next
  case (Cons r rs)
  show ?case
  proof (cases "is_dict r")
    case True
    then obtain lg' where "import_record job_date r (d, lg) = Inr (step job_date r d, lg')"
      using import_record_dict_eq by blast
    with True Cons [of "step job_date r d" lg'] show ?thesis
      by (simp add: step_keys)
  next
    case False
    then show ?thesis by (simp add: import_record_nondict loop_db_def)
  qed
qed

lemma import_keys:
  "keys_of (fst (snd (import_jobs_from_json fs json_path st)))
     = fold key_step (processed_records fs json_path) (keys_of (fst st))"
proof (cases "date_of_path json_path")
  case (Inl e)
  then show ?thesis by (simp add: import_jobs_from_json_def processed_records_def)
next
  case (Inr job_date)
  show ?thesis
  proof (cases "fs json_path")
    case (Content jobs_data)
    show ?thesis
    proof (cases "py_iter jobs_data")
      case (Inl e)
      with Inr Content show ?thesis
        by (simp add: import_jobs_from_json_def processed_records_def)
    next
      case rs: (Inr records)
      define log1 where "log1 = (if job_date = None
                       then snd st @ [Warning (''Failed to extract date from '' @ json_path)]
                       else snd st)"
      have "fst (snd (import_jobs_from_json fs json_path st))
          = loop_db (import_loop job_date records (fst st, log1))"
        using Inr Content rs
        by (auto simp add: import_jobs_from_json_def loop_db_def log1_def Let_def
            split: sum.splits)
      with Inr Content rs show ?thesis
        by (simp add: import_loop_keys processed_records_def)
    qed
  qed (simp_all add: Inr import_jobs_from_json_def processed_records_def)
qed

lemma row_counts_keys:
  "keys_of a = keys_of b \<Longrightarrow> row_counts a = row_counts b"
proof -
  assume h: "keys_of a = keys_of b"
  have "length (jobs a) = length (job_ids a)" "length (jobs b) = length (job_ids b)"
    "length (job_locations a) = length (jl_keys a)" "length (job_locations b) = length (jl_keys b)"
    by (simp_all add: job_ids_def jl_keys_def)
  with h show ?thesis by (simp add: row_counts_def keys_of_def)
qed

text \<open>
  C1: importing the same snapshot file a second time, into the database the first import
  left, creates no row: the Job, Tech, Location and JobLocation counts after the second
  run are those after the first, and so are the keys of all four tables. This holds for
  every file content, path and starting database, the runs that stop early included.
\<close>

theorem reimport_creates_no_rows:
  "row_counts (fst (snd (import_jobs_from_json fs json_path
       (snd (import_jobs_from_json fs json_path st)))))
   = row_counts (fst (snd (import_jobs_from_json fs json_path st)))
   \<and> keys_of (fst (snd (import_jobs_from_json fs json_path
       (snd (import_jobs_from_json fs json_path st)))))
   = keys_of (fst (snd (import_jobs_from_json fs json_path st)))"
proof -
  define st1 where "st1 = snd (import_jobs_from_json fs json_path st)"
  define rs where "rs = processed_records fs json_path"
  have k1: "keys_of (fst st1) = fold key_step rs (keys_of (fst st))"
    by (simp add: st1_def rs_def import_keys)
  have "keys_of (fst (snd (import_jobs_from_json fs json_path st1)))
      = fold key_step rs (keys_of (fst st1))"
    by (simp add: rs_def import_keys)
  also have "\<dots> = keys_of (fst st1)"
    by (rule fold_key_step_fix [of rs "keys_of (fst st)"]) (simp add: k1 kext_refl)
  finally have k: "keys_of (fst (snd (import_jobs_from_json fs json_path st1))) = keys_of (fst st1)" .
  then have "row_counts (fst (snd (import_jobs_from_json fs json_path st1))) = row_counts (fst st1)"
    by (rule row_counts_keys)
  with k show ?thesis by (simp add: st1_def)
qed

subsection \<open>The Job row\<close>

lemma scan_words_range: "scan_words vocab ws \<in> set vocab \<union> {''Other''}"
proof (induction ws)
  case Nil
  show ?case by simp
next
  case (Cons w ws)
  show ?case
  proof (cases "find (\<lambda>tech. w = py_lower tech) vocab")
    case None
    with Cons show ?thesis by simp
  next
    case (Some t)
    then have "t \<in> set vocab" by (auto simp add: find_Some_iff)
    with Some Cons show ?thesis by simp
  qed
qed

lemma extract_tech_nonempty: "extract_tech title \<noteq> []"
proof -
  have "extract_tech title \<in> set KNOWN_TECHS \<union> {''Other''}"
    by (simp only: extract_tech_def extract_tech_in_def scan_words_range)
  moreover have "[] \<notin> set KNOWN_TECHS \<union> {''Other''}"
    by (simp add: KNOWN_TECHS_def)
  ultimately show ?thesis by metis
qed

lemma tech_name_of_eq: "tech_name_of title = extract_tech_py title"
  by (cases title) (simp_all add: tech_name_of_def extract_tech_nonempty)

lemma upsert_job_jobs:
  assumes "upsert_job job_date job_id title description sal url company d = (res, d1)"
  shows "jobs d1 =
     (if creatable job_id title description url company then
        (case first_index (\<lambda>r. Job_job_id r = job_id) (jobs d) of
           Some i \<Rightarrow> (jobs d)[i := (jobs d ! i)\<lparr>Job_title := title,
               Job_description := description, Job_salary_is_predicted := sal,
               Job_redirect_url := url, Job_company := company,
               Job_tech := the_index (tech_name_of title) (techs d1)\<rparr>]
         | None \<Rightarrow> jobs d @ [\<lparr>Job_job_id = job_id, Job_title = title,
               Job_description = description, Job_salary_is_predicted = sal,
               Job_redirect_url = url, Job_company = company,
               Job_tech = the_index (tech_name_of title) (techs d1), Job_date = job_date\<rparr>])
      else jobs d)"
proof -
  define tn where "tn = tech_name_of title"
  obtain tech c0 d0 where t: "Tech_get_or_create tn d = ((tech, c0), d0)"
    by (metis prod.exhaust)
  note t_d0 = Tech_get_or_create_eff [OF t, THEN conjunct1]
  note t_fi = Tech_get_or_create_eff [OF t, THEN conjunct2]
  have j0: "jobs d0 = jobs d" using t_d0 by simp
  have techs1: "techs d1 = techs d0"
    using upsert_job_eff [OF assms] t_d0 by (simp add: tn_def)
  have tech: "the_index (tech_name_of title) (techs d1) = tech"
    using t_fi by (simp add: techs1 the_index_def tn_def)
  define row where "row = \<lparr>Job_job_id = job_id, Job_title = title, Job_description = description,
                Job_salary_is_predicted = sal, Job_redirect_url = url,
                Job_company = company, Job_tech = tech, Job_date = job_date\<rparr>"
  have nn: "Job_not_null row = creatable job_id title description url company"
    by (simp add: Job_not_null_def creatable_def row_def)
  have unf: "upsert_job job_date job_id title description sal url company d =
     (case Job_get_or_create row d0 of
           Inl e \<Rightarrow> (Inl e, d0)
         | Inr ((job, created), d2) \<Rightarrow>
             if \<not> created then
               (case Job_save job
                   ((jobs d2 ! job)\<lparr>Job_title := title, Job_description := description,
                      Job_salary_is_predicted := sal,
                      Job_redirect_url := url, Job_company := company,
                      Job_tech := tech\<rparr>) d2 of
                  Inl e \<Rightarrow> (Inl e, d2)
                | Inr d3 \<Rightarrow> (Inr job, d3))
             else (Inr job, d2))"
    using t by (simp add: upsert_job_def tn_def tech_name_of_def row_def Let_def)
  show ?thesis unfolding tech
  proof (cases "first_index (\<lambda>r. Job_job_id r = job_id) (jobs d)")
    case None
    then have g: "Job_get_or_create row d0 =
        (if Job_not_null row then Inr ((length (jobs d0), True), d0\<lparr>jobs := jobs d0 @ [row]\<rparr>)
         else Inl IntegrityError)"
      by (simp add: Job_get_or_create_def j0 row_def)
    from assms unf g nn None j0 show "jobs d1 =
     (if creatable job_id title description url company then
        (case first_index (\<lambda>r. Job_job_id r = job_id) (jobs d) of
           Some i \<Rightarrow> (jobs d)[i := (jobs d ! i)\<lparr>Job_title := title,
               Job_description := description, Job_salary_is_predicted := sal,
               Job_redirect_url := url, Job_company := company,
               Job_tech := tech\<rparr>]
         | None \<Rightarrow> jobs d @ [\<lparr>Job_job_id = job_id, Job_title = title,
               Job_description = description, Job_salary_is_predicted = sal,
               Job_redirect_url = url, Job_company = company,
               Job_tech = tech, Job_date = job_date\<rparr>])
      else jobs d)"
      by (auto simp add: row_def split: if_splits)
  next
    case (Some i)
    then have g: "Job_get_or_create row d0 = Inr ((i, False), d0)"
      by (simp add: Job_get_or_create_def j0 row_def)
    from Some have jid: "Job_job_id (jobs d ! i) = job_id"
      using first_index_Some [of "\<lambda>r. Job_job_id r = job_id" "jobs d" i] by simp
    define row' where "row' = (jobs d ! i)\<lparr>Job_title := title, Job_description := description,
                      Job_salary_is_predicted := sal,
                      Job_redirect_url := url, Job_company := company,
                      Job_tech := tech\<rparr>"
    have nn': "Job_not_null row' = creatable job_id title description url company"
      using jid by (simp add: Job_not_null_def creatable_def row'_def)
    from assms unf g have "(res, d1) = (case Job_save i row' d0 of
                  Inl e \<Rightarrow> (Inl e, d0)
                | Inr d3 \<Rightarrow> (Inr i, d3))"
      by (simp add: row'_def j0)
    with nn' Some j0 show "jobs d1 =
     (if creatable job_id title description url company then
        (case first_index (\<lambda>r. Job_job_id r = job_id) (jobs d) of
           Some i \<Rightarrow> (jobs d)[i := (jobs d ! i)\<lparr>Job_title := title,
               Job_description := description, Job_salary_is_predicted := sal,
               Job_redirect_url := url, Job_company := company,
               Job_tech := tech\<rparr>]
         | None \<Rightarrow> jobs d @ [\<lparr>Job_job_id = job_id, Job_title = title,
               Job_description = description, Job_salary_is_predicted = sal,
               Job_redirect_url = url, Job_company = company,
               Job_tech = tech, Job_date = job_date\<rparr>])
      else jobs d)"
      by (auto simp add: Job_save_def row'_def split: if_splits)
  qed
qed

lemma location_stage_jobs:
  "jobs (snd (location_stage jd job d)) = jobs d \<and> techs (snd (location_stage jd job d)) = techs d"
proof (cases "location_name jd")
  case None
  then show ?thesis by (simp add: location_stage_none)
next
  case (Some s)
  obtain dn city where p: "parse_location s = Inr (dn, city)"
    using parse_location_total by blast
  obtain res2 d2 where u2: "upsert_job_location job s (py_get jd ''latitude'')
            (py_get jd ''longitude'') d = (res2, d2)" by (metis prod.exhaust)
  from upsert_job_location_eff [OF p u2] Some u2 show ?thesis
    by (simp add: location_stage_name)
qed

lemma step_jobs:
  assumes c: "py_get_default jd ''company'' (JObj []) = JObj c"
  shows "jobs (step job_date (JObj jd) d) =
     (if creatable (py_get jd ''id'') (py_get_default jd ''title'' (JStr []))
           (py_get_default jd ''description'' (JStr []))
           (py_get_default jd ''redirect_url'' (JStr []))
           (py_get_default c ''display_name'' (JStr [])) then
        (case first_index (\<lambda>r. Job_job_id r = py_get jd ''id'') (jobs d) of
           Some i \<Rightarrow> (jobs d)[i := (jobs d ! i)\<lparr>Job_title := py_get_default jd ''title'' (JStr []),
               Job_description := py_get_default jd ''description'' (JStr []),
               Job_salary_is_predicted := (py_get jd ''salary_is_predicted'' = JStr ''1''),
               Job_redirect_url := py_get_default jd ''redirect_url'' (JStr []),
               Job_company := py_get_default c ''display_name'' (JStr []),
               Job_tech := the_index (tech_name_of (py_get_default jd ''title'' (JStr [])))
                              (techs (step job_date (JObj jd) d))\<rparr>]
         | None \<Rightarrow> jobs d @ [\<lparr>Job_job_id = py_get jd ''id'',
               Job_title = py_get_default jd ''title'' (JStr []),
               Job_description = py_get_default jd ''description'' (JStr []),
               Job_salary_is_predicted = (py_get jd ''salary_is_predicted'' = JStr ''1''),
               Job_redirect_url = py_get_default jd ''redirect_url'' (JStr []),
               Job_company = py_get_default c ''display_name'' (JStr []),
               Job_tech = the_index (tech_name_of (py_get_default jd ''title'' (JStr [])))
                              (techs (step job_date (JObj jd) d)),
               Job_date = job_date\<rparr>])
      else jobs d)"
proof -
  obtain res d1 where u: "upsert_job job_date (py_get jd ''id'') (py_get_default jd ''title'' (JStr []))
             (py_get_default jd ''description'' (JStr []))
             (py_get jd ''salary_is_predicted'' = JStr ''1'')
             (py_get_default jd ''redirect_url'' (JStr []))
             (py_get_default c ''display_name'' (JStr [])) d = (res, d1)"
    by (metis prod.exhaust)
  have ab: "jobs (step job_date (JObj jd) d) = jobs d1 \<and> techs (step job_date (JObj jd) d) = techs d1"
    using process_job_unf [OF c, of job_date d] u location_stage_jobs
    by (cases res) (simp_all add: step_def)
  show ?thesis unfolding ab [THEN conjunct1] ab [THEN conjunct2]
    by (rule upsert_job_jobs [OF u])
qed

subsection \<open>Overwriting an existing Job\<close>

lemma step_dates:
  "map Job_date (take (length (jobs d)) (jobs (step job_date r d))) = map Job_date (jobs d)"
proof (cases "is_dict r")
  case False
  then show ?thesis by (simp add: step_def process_job_nondict)
next
  case True
  then obtain jd where r: "r = JObj jd" by (cases r) auto
  show ?thesis
  proof (cases "\<exists>c. py_get_default jd ''company'' (JObj []) = JObj c")
    case False
    then show ?thesis by (simp add: r step_def process_job_no_company)
  next
    case True
    then obtain c where c: "py_get_default jd ''company'' (JObj []) = JObj c" by blast
    show ?thesis
      unfolding r step_jobs [OF c]
      by (auto simp add: map_update list_update_same_conv
          dest: first_index_Some split: option.splits)
  qed
qed

text \<open>
  C8: when a record is processed whose external identifier already has a Job row, and the
  record supplies a value for every \<^verbatim>\<open>NOT NULL\<close> column (so that the update is
  accepted), the row becomes the old row with title, description, salary-predicted flag,
  redirect URL, company and tech reference overwritten from the record; its identifier
  and its posting date are as before. Whatever the record, no existing row's date changes.
\<close>

theorem existing_job_overwritten_date_kept:
  "(py_get_default jd ''company'' (JObj []) = JObj c
    \<and> creatable (py_get jd ''id'') (py_get_default jd ''title'' (JStr []))
         (py_get_default jd ''description'' (JStr []))
         (py_get_default jd ''redirect_url'' (JStr []))
         (py_get_default c ''display_name'' (JStr []))
    \<and> first_index (\<lambda>r. Job_job_id r = py_get jd ''id'') (jobs d) = Some i
    \<longrightarrow> jobs (step job_date (JObj jd) d) =
          (jobs d)[i := (jobs d ! i)\<lparr>Job_title := py_get_default jd ''title'' (JStr []),
               Job_description := py_get_default jd ''description'' (JStr []),
               Job_salary_is_predicted := (py_get jd ''salary_is_predicted'' = JStr ''1''),
               Job_redirect_url := py_get_default jd ''redirect_url'' (JStr []),
               Job_company := py_get_default c ''display_name'' (JStr []),
               Job_tech := the_index (extract_tech_py (py_get_default jd ''title'' (JStr [])))
                              (techs (step job_date (JObj jd) d))\<rparr>]
        \<and> Job_date (jobs (step job_date (JObj jd) d) ! i) = Job_date (jobs d ! i)
        \<and> Job_job_id (jobs (step job_date (JObj jd) d) ! i) = py_get jd ''id'')
   \<and> map Job_date (take (length (jobs d)) (jobs (step job_date job_data d)))
       = map Job_date (jobs d)"
proof (intro conjI impI)
  show "map Job_date (take (length (jobs d)) (jobs (step job_date job_data d)))
       = map Job_date (jobs d)" by (rule step_dates)
next
  assume h: "py_get_default jd ''company'' (JObj []) = JObj c
    \<and> creatable (py_get jd ''id'') (py_get_default jd ''title'' (JStr []))
         (py_get_default jd ''description'' (JStr []))
         (py_get_default jd ''redirect_url'' (JStr []))
         (py_get_default c ''display_name'' (JStr []))
    \<and> first_index (\<lambda>r. Job_job_id r = py_get jd ''id'') (jobs d) = Some i"
  then have c: "py_get_default jd ''company'' (JObj []) = JObj c" by simp
  from h have i: "i < length (jobs d)" and jid: "Job_job_id (jobs d ! i) = py_get jd ''id''"
    using first_index_Some [of "\<lambda>r. Job_job_id r = py_get jd ''id''" "jobs d" i] by simp_all
  from h show "jobs (step job_date (JObj jd) d) =
          (jobs d)[i := (jobs d ! i)\<lparr>Job_title := py_get_default jd ''title'' (JStr []),
               Job_description := py_get_default jd ''description'' (JStr []),
               Job_salary_is_predicted := (py_get jd ''salary_is_predicted'' = JStr ''1''),
               Job_redirect_url := py_get_default jd ''redirect_url'' (JStr []),
               Job_company := py_get_default c ''display_name'' (JStr []),
               Job_tech := the_index (extract_tech_py (py_get_default jd ''title'' (JStr [])))
                              (techs (step job_date (JObj jd) d))\<rparr>]"
    by (simp add: step_jobs [OF c] tech_name_of_eq)
  from h i show "Job_date (jobs (step job_date (JObj jd) d) ! i) = Job_date (jobs d ! i)"
    by (simp add: step_jobs [OF c])
  from h i jid show "Job_job_id (jobs (step job_date (JObj jd) d) ! i) = py_get jd ''id''"
    by (simp add: step_jobs [OF c])
qed

theorem existing_job_overwritten_date_kept_witness:
  "py_get_default later_record ''company'' (JObj []) = JObj [(''display_name'', JStr ''ExampleCo'')]
   \<and> creatable (py_get later_record ''id'') (py_get_default later_record ''title'' (JStr []))
         (py_get_default later_record ''description'' (JStr []))
         (py_get_default later_record ''redirect_url'' (JStr []))
         (py_get_default [(''display_name'', JStr ''ExampleCo'')] ''display_name'' (JStr []))
   \<and> first_index (\<lambda>r. Job_job_id r = py_get later_record ''id'') (jobs test_db) = Some 0
   \<and> Job_date (jobs (step (Some (Date 2025 9 9)) (JObj later_record) test_db) ! 0)
       = Some (Date 2025 9 8)
   \<and> Job_job_id (jobs (step (Some (Date 2025 9 9)) (JObj later_record) test_db) ! 0)
       = JStr ''job_1''"
proof -
  have a: "py_get_default later_record ''company'' (JObj []) = JObj [(''display_name'', JStr ''ExampleCo'')]"
    by (simp add: later_record_def py_get_default_def)
  have b: "creatable (py_get later_record ''id'') (py_get_default later_record ''title'' (JStr []))
         (py_get_default later_record ''description'' (JStr []))
         (py_get_default later_record ''redirect_url'' (JStr []))
         (py_get_default [(''display_name'', JStr ''ExampleCo'')] ''display_name'' (JStr []))"
    by (simp add: later_record_def py_get_default_def py_get_def creatable_def)
  have c: "first_index (\<lambda>r. Job_job_id r = py_get later_record ''id'') (jobs test_db) = Some 0"
    by (simp add: later_record_def py_get_def test_db_def)
  have d: "Job_date (jobs test_db ! 0) = Some (Date 2025 9 8)"
    by (simp add: test_db_def)
  have e: "py_get later_record ''id'' = JStr ''job_1''"
    by (simp add: later_record_def py_get_def)
  have k: "Job_date (jobs (step (Some (Date 2025 9 9)) (JObj later_record) test_db) ! 0)
       = Job_date (jobs test_db ! 0)
     \<and> Job_job_id (jobs (step (Some (Date 2025 9 9)) (JObj later_record) test_db) ! 0)
       = py_get later_record ''id''"
    using a b c
      existing_job_overwritten_date_kept [of later_record "[(''display_name'', JStr ''ExampleCo'')]"
        test_db 0 "Some (Date 2025 9 9)" JNull]
    by blast
  have k': "Job_date (jobs (step (Some (Date 2025 9 9)) (JObj later_record) test_db) ! 0)
       = Some (Date 2025 9 8)
     \<and> Job_job_id (jobs (step (Some (Date 2025 9 9)) (JObj later_record) test_db) ! 0)
       = JStr ''job_1''"
    using k by (simp only: d e)
  from a b c k' show ?thesis by blast
qed

subsection \<open>The salary flag\<close>

lemma py_get_eq_iff: "(py_get jd k = JStr ''1'') = (map_of jd k = Some (JStr ''1''))"
  by (simp add: py_get_def split: option.splits)

text \<open>
  C10: whenever the record leads to a Job row being written (created or overwritten), the
  stored salary-predicted flag is true exactly when the record has the field
  \<^verbatim>\<open>salary_is_predicted\<close> and its value is the string "1"; an absent field, the string
  "0", a boolean, a number or any other value gives false.
\<close>

theorem salary_flag_iff_string_one:
  "(py_get_default jd ''company'' (JObj []) = JObj c
    \<and> creatable (py_get jd ''id'') (py_get_default jd ''title'' (JStr []))
         (py_get_default jd ''description'' (JStr []))
         (py_get_default jd ''redirect_url'' (JStr []))
         (py_get_default c ''display_name'' (JStr []))
    \<longrightarrow> Job_salary_is_predicted (jobs (step job_date (JObj jd) d)
            ! the_index (py_get jd ''id'') (job_ids (step job_date (JObj jd) d)))
        = (map_of jd ''salary_is_predicted'' = Some (JStr ''1'')))
   \<and> (py_get jd ''salary_is_predicted'' = JStr ''1'')
       = (map_of jd ''salary_is_predicted'' = Some (JStr ''1''))"
proof (intro conjI impI)
  show "(py_get jd ''salary_is_predicted'' = JStr ''1'')
       = (map_of jd ''salary_is_predicted'' = Some (JStr ''1''))" by (rule py_get_eq_iff)
next
  assume h: "py_get_default jd ''company'' (JObj []) = JObj c
    \<and> creatable (py_get jd ''id'') (py_get_default jd ''title'' (JStr []))
         (py_get_default jd ''description'' (JStr []))
         (py_get_default jd ''redirect_url'' (JStr []))
         (py_get_default c ''display_name'' (JStr []))"
  then have c: "py_get_default jd ''company'' (JObj []) = JObj c" by simp
  define job_id where "job_id = py_get jd ''id''"
  have "keys_of (step job_date (JObj jd) d) = key_step (JObj jd) (keys_of d)"
    by (rule step_keys)
  with h have ids: "job_ids (step job_date (JObj jd) d) = add_key job_id (job_ids d)"
    by (auto simp add: keys_of_def key_step_def Let_def job_id_def split: option.splits sum.splits)
  show "Job_salary_is_predicted (jobs (step job_date (JObj jd) d)
            ! the_index (py_get jd ''id'') (job_ids (step job_date (JObj jd) d)))
        = (map_of jd ''salary_is_predicted'' = Some (JStr ''1''))"
  proof (cases "first_index (\<lambda>r. Job_job_id r = job_id) (jobs d)")
    case None
    then have fi: "first_index (\<lambda>k. k = job_id) (job_ids d) = None"
      by (simp add: first_index_job_ids)
    then have "job_id \<notin> set (job_ids d)"
      using first_index_None_iff [of "\<lambda>k. k = job_id" "job_ids d"] by auto
    then have "the_index job_id (add_key job_id (job_ids d)) = length (jobs d)"
      using fi by (simp add: add_key_def the_index_def first_index_append job_ids_def)
    with h None show ?thesis
      by (simp add: step_jobs [OF c] ids job_id_def [symmetric] py_get_eq_iff)
  next
    case (Some i)
    then have fi: "first_index (\<lambda>k. k = job_id) (job_ids d) = Some i"
      by (simp add: first_index_job_ids)
    then have "job_id \<in> set (job_ids d)" and i: "i < length (jobs d)"
      using first_index_Some [of "\<lambda>k. k = job_id" "job_ids d" i]
      by (auto simp add: job_ids_def)
    then have "the_index job_id (add_key job_id (job_ids d)) = i"
      using fi by (simp add: add_key_def the_index_def)
    with h Some i show ?thesis
      by (simp add: step_jobs [OF c] ids job_id_def [symmetric] py_get_eq_iff)
  qed
qed

theorem salary_flag_iff_string_one_witness:
  "py_get_default later_record ''company'' (JObj []) = JObj [(''display_name'', JStr ''ExampleCo'')]
   \<and> creatable (py_get later_record ''id'') (py_get_default later_record ''title'' (JStr []))
         (py_get_default later_record ''description'' (JStr []))
         (py_get_default later_record ''redirect_url'' (JStr []))
         (py_get_default [(''display_name'', JStr ''ExampleCo'')] ''display_name'' (JStr []))
   \<and> Job_salary_is_predicted (jobs (step None (JObj later_record) empty_db)
            ! the_index (py_get later_record ''id'') (job_ids (step None (JObj later_record) empty_db)))
       = True"
proof -
  have a: "py_get_default later_record ''company'' (JObj []) = JObj [(''display_name'', JStr ''ExampleCo'')]"
    by (simp add: later_record_def py_get_default_def)
  have b: "creatable (py_get later_record ''id'') (py_get_default later_record ''title'' (JStr []))
         (py_get_default later_record ''description'' (JStr []))
         (py_get_default later_record ''redirect_url'' (JStr []))
         (py_get_default [(''display_name'', JStr ''ExampleCo'')] ''display_name'' (JStr []))"
    by (simp add: later_record_def py_get_default_def py_get_def creatable_def)
  have m: "(map_of later_record ''salary_is_predicted'' = Some (JStr ''1'')) = True"
    by (simp add: later_record_def)
  have k: "Job_salary_is_predicted (jobs (step None (JObj later_record) empty_db)
            ! the_index (py_get later_record ''id'') (job_ids (step None (JObj later_record) empty_db)))
       = (map_of later_record ''salary_is_predicted'' = Some (JStr ''1''))"
    using a b salary_flag_iff_string_one [of later_record
        "[(''display_name'', JStr ''ExampleCo'')]" None empty_db]
    by blast
  from a b k m show ?thesis by (simp only:)
qed

subsection \<open>JobLocation rows\<close>

text \<open>
  C2: an import keeps the (job, location, district) triples of the JobLocation table
  pairwise distinct. The lookup matches a row exactly when all three components are equal,
  so an absent district matches only rows whose district is absent. Processing a location
  adds the triple when no row has it and adds nothing otherwise; when the row exists it is
  the only row touched, its triple stays, and its latitude (longitude) becomes the incoming
  value exactly when that value is not null and differs from the stored one.
\<close>

theorem job_location_unique_per_triple:
  "(distinct (jl_keys d) \<longrightarrow>
      distinct (jl_keys (fst (snd (import_jobs_from_json fs json_path (d, lg))))))
   \<and> jl_match job loc district r
       = (JL_job r = job \<and> JL_location r = loc \<and> JL_district r = district)
   \<and> (parse_location s = Inr (dn, city) \<longrightarrow>
        jl_keys (snd (upsert_job_location job s lat lon d))
          = add_key (job, the_index city (add_key city (locations d)), dn) (jl_keys d))
   \<and> (parse_location s = Inr (dn, city)
        \<and> first_index (\<lambda>n. n = city) (locations d) = Some l
        \<and> first_index (jl_match job l dn) (job_locations d) = Some i \<longrightarrow>
        upsert_job_location job s lat lon d =
          (None, d\<lparr>job_locations :=
             (job_locations d)[i := new_coords lat lon (job_locations d ! i)]\<rparr>))
   \<and> JL_latitude (new_coords lat lon row)
       = (if lat \<noteq> JNull \<and> JL_latitude row \<noteq> lat then lat else JL_latitude row)
   \<and> JL_longitude (new_coords lat lon row)
       = (if lon \<noteq> JNull \<and> JL_longitude row \<noteq> lon then lon else JL_longitude row)
   \<and> jl_key (new_coords lat lon row) = jl_key row"
proof (intro conjI impI)
  assume dk: "distinct (jl_keys d)"
  have "jl_keys (fst (snd (import_jobs_from_json fs json_path (d, lg))))
     = snd (snd (snd (keys_of (fst (snd (import_jobs_from_json fs json_path (d, lg)))))))"
    by (simp add: keys_of_def)
  then have "jl_keys (fst (snd (import_jobs_from_json fs json_path (d, lg))))
     = snd (snd (snd (fold key_step (processed_records fs json_path) (keys_of d))))"
    by (simp add: import_keys)
  moreover have "distinct (snd (snd (snd (fold key_step (processed_records fs json_path) (keys_of d)))))"
    using dk by (intro distinct_fold_key_step) (simp add: keys_of_def)
  ultimately show "distinct (jl_keys (fst (snd (import_jobs_from_json fs json_path (d, lg)))))"
    by simp
next
  show "jl_match job loc district r
       = (JL_job r = job \<and> JL_location r = loc \<and> JL_district r = district)"
    by (auto simp add: jl_match_iff jl_key_def)
next
  assume p: "parse_location s = Inr (dn, city)"
  obtain res d2 where u: "upsert_job_location job s lat lon d = (res, d2)"
    by (metis prod.exhaust)
  from upsert_job_location_eff [OF p u] u
  show "jl_keys (snd (upsert_job_location job s lat lon d))
          = add_key (job, the_index city (add_key city (locations d)), dn) (jl_keys d)"
    by simp
next
  assume "parse_location s = Inr (dn, city)
        \<and> first_index (\<lambda>n. n = city) (locations d) = Some l
        \<and> first_index (jl_match job l dn) (job_locations d) = Some i"
  then show "upsert_job_location job s lat lon d =
          (None, d\<lparr>job_locations :=
             (job_locations d)[i := new_coords lat lon (job_locations d ! i)]\<rparr>)"
    by (simp add: upsert_job_location_found)
next
  show "JL_latitude (new_coords lat lon row)
       = (if lat \<noteq> JNull \<and> JL_latitude row \<noteq> lat then lat else JL_latitude row)"
    by (simp add: new_coords_def)
  show "JL_longitude (new_coords lat lon row)
       = (if lon \<noteq> JNull \<and> JL_longitude row \<noteq> lon then lon else JL_longitude row)"
    by (simp add: new_coords_def)
  show "jl_key (new_coords lat lon row) = jl_key row"
    by (simp add: new_coords_def jl_key_def)
qed


theorem job_location_unique_per_triple_witness:
  "distinct (jl_keys test_db)
   \<and> distinct (jl_keys (fst (snd (import_jobs_from_json (\<lambda>p. Content test_snapshot)
         ''all_jobs_2025-09-08.json'' (test_db, [])))))
   \<and> parse_location ''Berlin'' = Inr (None, ''Berlin'')
   \<and> first_index (\<lambda>n. n = ''Berlin'') (locations test_db) = Some 0
   \<and> first_index (jl_match 0 0 None) (job_locations test_db) = Some 0
   \<and> upsert_job_location 0 ''Berlin'' (JNum 53) (JNum 13.405) test_db =
        (None, test_db\<lparr>job_locations :=
           [\<lparr>JL_job = 0, JL_location = 0, JL_district = None,
             JL_latitude = JNum 53, JL_longitude = JNum 13.405\<rparr>]\<rparr>)"
proof -
  have a: "distinct (jl_keys test_db)" by (simp add: test_db_def jl_keys_def)
  have b: "parse_location ''Berlin'' = Inr (None, ''Berlin'')" by code_simp
  have c: "first_index (\<lambda>n. n = ''Berlin'') (locations test_db) = Some 0"
    by (simp add: test_db_def)
  have d: "first_index (jl_match 0 0 None) (job_locations test_db) = Some 0"
    by (simp add: test_db_def jl_match_def peewee_eq_def)
  note t = job_location_unique_per_triple [of test_db "\<lambda>p. Content test_snapshot"
      "''all_jobs_2025-09-08.json''" "[]" 0 0 None "job_locations test_db ! 0" "''Berlin''" None
      "''Berlin''" "JNum 53" "JNum 13.405" 0 0 "job_locations test_db ! 0"]
  from t a have e: "distinct (jl_keys (fst (snd (import_jobs_from_json (\<lambda>p. Content test_snapshot)
         ''all_jobs_2025-09-08.json'' (test_db, [])))))" by blast
  from t b c d have "upsert_job_location 0 ''Berlin'' (JNum 53) (JNum 13.405) test_db =
          (None, test_db\<lparr>job_locations :=
             (job_locations test_db)[0 := new_coords (JNum 53) (JNum 13.405) (job_locations test_db ! 0)]\<rparr>)"
    by blast
  then have f: "upsert_job_location 0 ''Berlin'' (JNum 53) (JNum 13.405) test_db =
        (None, test_db\<lparr>job_locations :=
           [\<lparr>JL_job = 0, JL_location = 0, JL_district = None,
             JL_latitude = JNum 53, JL_longitude = JNum 13.405\<rparr>]\<rparr>)"
    by (simp add: test_db_def new_coords_def)
  from a b c d e f show ?thesis by blast
qed

text \<open>
  C6, as amended: the display name is split at every comma and each part is stripped of
  surrounding white space. A name without a comma gives its stripped self as the city and no
  district; a name with exactly one comma gives (district, city); a name with two or more
  commas gives the first part alone as the city, not the whole string, and no district.
  When the record's display name is present and not "Deutschland", the city so obtained is
  the Location that is looked up or created, and (job, that location, the district so
  obtained) is the JobLocation key that is looked up or created.
\<close>

theorem parse_location_parts:
  "(CHR '','' \<notin> set s \<longrightarrow> parse_location s = Inr (None, py_strip s))
   \<and> (CHR '','' \<notin> set a \<and> CHR '','' \<notin> set b \<longrightarrow>
        parse_location (a @ CHR '','' # b) = Inr (Some (py_strip a), py_strip b))
   \<and> (CHR '','' \<notin> set a \<and> CHR '','' \<in> set rest \<longrightarrow>
        parse_location (a @ CHR '','' # rest) = Inr (None, py_strip a))
   \<and> (py_get_default jd ''location'' (JObj []) = JObj li \<and> py_get li ''display_name'' = JStr n
        \<and> n \<noteq> [] \<and> n \<noteq> ''Deutschland'' \<and> parse_location n = Inr (dn, city) \<longrightarrow>
        locations (snd (location_stage jd job d)) = add_key city (locations d)
        \<and> jl_keys (snd (location_stage jd job d))
            = add_key (job, the_index city (add_key city (locations d)), dn) (jl_keys d))"
proof (intro conjI impI)
  assume "CHR '','' \<notin> set s"
  then show "parse_location s = Inr (None, py_strip s)"
    by (simp add: parse_location_def split_on_no_sep)
next
  assume "CHR '','' \<notin> set a \<and> CHR '','' \<notin> set b"
  then show "parse_location (a @ CHR '','' # b) = Inr (Some (py_strip a), py_strip b)"
    by (simp add: parse_location_def split_on_append split_on_no_sep)
next
  assume h: "CHR '','' \<notin> set a \<and> CHR '','' \<in> set rest"
  then have "2 \<le> length (split_on (CHR '','') rest)" by (simp add: split_on_two)
  with h show "parse_location (a @ CHR '','' # rest) = Inr (None, py_strip a)"
    by (simp add: parse_location_def split_on_append)
next
  assume h: "py_get_default jd ''location'' (JObj []) = JObj li \<and> py_get li ''display_name'' = JStr n
        \<and> n \<noteq> [] \<and> n \<noteq> ''Deutschland'' \<and> parse_location n = Inr (dn, city)"
  then have ln: "location_name jd = Some n" by (simp add: location_name_def)
  from h have p: "parse_location n = Inr (dn, city)" by simp
  obtain res d2 where u: "upsert_job_location job n (py_get jd ''latitude'')
      (py_get jd ''longitude'') d = (res, d2)" by (metis prod.exhaust)
  from upsert_job_location_eff [OF p u] u ln
  show "locations (snd (location_stage jd job d)) = add_key city (locations d)"
    and "jl_keys (snd (location_stage jd job d))
            = add_key (job, the_index city (add_key city (locations d)), dn) (jl_keys d)"
    by (simp_all add: location_stage_name)
qed

theorem parse_location_parts_witness:
  "(CHR '','' \<notin> set ''Berlin'' \<and> parse_location ''Berlin'' = Inr (None, ''Berlin''))
   \<and> (CHR '','' \<notin> set ''Mitte'' \<and> CHR '','' \<notin> set '' Berlin'' \<and>
        parse_location ''Mitte, Berlin'' = Inr (Some ''Mitte'', ''Berlin''))
   \<and> (CHR '','' \<notin> set ''Mitte'' \<and> CHR '','' \<in> set '' Berlin, Deutschland'' \<and>
        parse_location ''Mitte, Berlin, Deutschland'' = Inr (None, ''Mitte''))
   \<and> (py_get_default later_record ''location'' (JObj []) = JObj [(''display_name'', JStr ''Berlin'')]
        \<and> py_get [(''display_name'', JStr ''Berlin'')] ''display_name'' = JStr ''Berlin''
        \<and> ''Berlin'' \<noteq> [] \<and> ''Berlin'' \<noteq> ''Deutschland''
        \<and> locations (snd (location_stage later_record 0 empty_db)) = [''Berlin'']
        \<and> jl_keys (snd (location_stage later_record 0 empty_db)) = [(0, 0, None)])"
proof -
  note t = parse_location_parts [of "''Berlin''" "''Mitte''" "'' Berlin''" "'' Berlin, Deutschland''"
      later_record "[(''display_name'', JStr ''Berlin'')]" "''Berlin''" None "''Berlin''" 0 empty_db]
  have p: "parse_location ''Berlin'' = Inr (None, ''Berlin'')" by code_simp
  have g: "py_get_default later_record ''location'' (JObj []) = JObj [(''display_name'', JStr ''Berlin'')]"
    "py_get [(''display_name'', JStr ''Berlin'')] ''display_name'' = JStr ''Berlin''"
    by (simp_all add: later_record_def py_get_default_def py_get_def)
  have n: "''Berlin'' \<noteq> []" "''Berlin'' \<noteq> ''Deutschland''" by simp_all
  from t p g n have "locations (snd (location_stage later_record 0 empty_db))
        = add_key ''Berlin'' (locations empty_db)
      \<and> jl_keys (snd (location_stage later_record 0 empty_db))
        = add_key (0, the_index ''Berlin'' (add_key ''Berlin'' (locations empty_db)), None)
            (jl_keys empty_db)"
    by blast
  then have l: "locations (snd (location_stage later_record 0 empty_db)) = [''Berlin'']
        \<and> jl_keys (snd (location_stage later_record 0 empty_db)) = [(0, 0, None)]"
    by (simp add: empty_db_def add_key_def the_index_def jl_keys_def)
  have c: "CHR '','' \<notin> set ''Berlin''" "CHR '','' \<notin> set ''Mitte''" "CHR '','' \<notin> set '' Berlin''"
    "CHR '','' \<in> set '' Berlin, Deutschland''" by simp_all
  from t c have "parse_location ''Berlin'' = Inr (None, py_strip ''Berlin'')"
    and "parse_location (''Mitte'' @ CHR '','' # '' Berlin'') = Inr (Some (py_strip ''Mitte''), py_strip '' Berlin'')"
    and "parse_location (''Mitte'' @ CHR '','' # '' Berlin, Deutschland'') = Inr (None, py_strip ''Mitte'')"
    by blast+
  then have q: "parse_location ''Berlin'' = Inr (None, ''Berlin'')"
    "parse_location ''Mitte, Berlin'' = Inr (Some ''Mitte'', ''Berlin'')"
    "parse_location ''Mitte, Berlin, Deutschland'' = Inr (None, ''Mitte'')"
    by (simp_all add: py_strip_def is_space_def)
  from c q g n l show ?thesis by blast
qed

subsection \<open>Pagination\<close>

lemma page_results_Some:
  "page_results r = Some v \<Longrightarrow>
   \<exists>kvs. r = Response (Some (JObj kvs)) \<and> py_get_default kvs ''results'' (JArr []) = v"
  by (auto simp add: page_results_def split: http_result.splits option.splits json.splits)

lemma fetch_loop_request_error:
  "api (page st) = RequestException \<Longrightarrow>
   fetch_loop api st = Some (None, st\<lparr>requested := requested st @ [page st],
      fetch_log := fetch_log st @ [Error ''Request Error'']\<rparr>)"
  by (subst fetch_loop.simps) (simp add: Let_def)

lemma fetch_loop_no_results:
  "page_results (api (page st)) = Some v \<Longrightarrow> \<not> py_truthy v \<Longrightarrow>
   fetch_loop api st = Some (None, st\<lparr>requested := requested st @ [page st],
      fetch_log := fetch_log st @ [Info ''No more jobs found, finishing pagination.'']\<rparr>)"
  by (subst fetch_loop.simps) (auto simp add: Let_def dest!: page_results_Some)

lemma fetch_loop_results:
  "page_results (api (page st)) = Some (JArr js) \<Longrightarrow> js \<noteq> [] \<Longrightarrow>
   fetch_loop api st = fetch_loop api
     (st\<lparr>requested := requested st @ [page st], all_jobs := all_jobs st @ js,
         fetch_log := fetch_log st @ [Info ''Page loaded''],
         page := page st + 1, sleeps := sleeps st + 1\<rparr>)"
  by (subst fetch_loop.simps) (auto simp add: Let_def dest!: page_results_Some)

lemma fetch_loop_raises:
  "api (page st) = Response None
   \<or> (\<exists>data. api (page st) = Response (Some data) \<and> \<not> is_dict data)
   \<or> (\<exists>v e. page_results (api (page st)) = Some v \<and> py_truthy v \<and> py_iter v = Inl e) \<Longrightarrow>
   \<exists>e. fetch_loop api st = Some (Some e, st\<lparr>requested := requested st @ [page st]\<rparr>)"
  by (subst fetch_loop.simps)
     (auto simp add: Let_def dest!: page_results_Some split: json.splits)

lemma advance_same: "advance res (page st) st = st"
  by (simp add: advance_def)

lemma advance_step:
  assumes "page st < n"
  shows "advance res n (st\<lparr>requested := requested st @ [page st],
         all_jobs := all_jobs st @ res (page st),
         fetch_log := fetch_log st @ [Info ''Page loaded''],
         page := page st + 1, sleeps := sleeps st + 1\<rparr>) = advance res n st"
proof -
  from assms have u: "[page st ..< n] = page st # [Suc (page st) ..< n]"
    by (simp add: upt_conv_Cons)
  from assms have r: "replicate (n - page st) (Info ''Page loaded'')
      = Info ''Page loaded'' # replicate (n - Suc (page st)) (Info ''Page loaded'')"
    by (simp add: Suc_diff_Suc flip: replicate_Suc)
  from assms show ?thesis by (simp add: advance_def u r)
qed

lemma fetch_loop_advance:
  assumes "page st \<le> n"
    and "\<forall>p. page st \<le> p \<and> p < n \<longrightarrow> page_results (api p) = Some (JArr (res p)) \<and> res p \<noteq> []"
  shows "fetch_loop api st = fetch_loop api (advance res n st)"
  using assms
proof (induction "n - page st" arbitrary: st)
  case 0
  then have "page st = n" by simp
  then show ?case using advance_same [of res st] by simp
next
  case (Suc k)
  then have lt: "page st < n" by simp
  define st' where "st' = st\<lparr>requested := requested st @ [page st],
         all_jobs := all_jobs st @ res (page st),
         fetch_log := fetch_log st @ [Info ''Page loaded''],
         page := page st + 1, sleeps := sleeps st + 1\<rparr>"
  from Suc.prems lt have "page_results (api (page st)) = Some (JArr (res (page st)))"
    and "res (page st) \<noteq> []" by auto
  then have one: "fetch_loop api st = fetch_loop api st'"
    unfolding st'_def by (rule fetch_loop_results)
  have p': "page st' = page st + 1" by (simp add: st'_def)
  have "fetch_loop api st' = fetch_loop api (advance res n st')"
  proof (rule Suc.hyps(1))
    show "k = n - page st'" using Suc.hyps(2) p' by simp
    show "page st' \<le> n" using lt p' by simp
    show "\<forall>p. page st' \<le> p \<and> p < n \<longrightarrow> page_results (api p) = Some (JArr (res p)) \<and> res p \<noteq> []"
      using Suc.prems(2) p' by simp
  qed
  moreover have "advance res n st' = advance res n st"
    unfolding st'_def using lt by (rule advance_step)
  ultimately show ?case using one by simp
qed

lemma fetch_jobs_via_advance:
  assumes c: "app_id = Some a \<and> a \<noteq> [] \<and> app_key = Some k \<and> k \<noteq> []"
    and n: "1 \<le> n"
    and g: "\<forall>p. 1 \<le> p \<and> p < n \<longrightarrow> page_results (api p) = Some (JArr (res p)) \<and> res p \<noteq> []"
    and l: "fetch_loop api \<lparr>page = n, all_jobs = concat (map res [1 ..< n]),
               fetch_log = replicate (n - 1) (Info ''Page loaded''),
               requested = [1 ..< n], sleeps = n - 1\<rparr> = Some (out, st)"
  shows "fetch_jobs app_id app_key api today writable =
     (case out of
        Some e \<Rightarrow> Some \<lparr>returned = None, artifact = None,
                      final_log = fetch_log st @ [ExceptionLog ''An error occurred''],
                      pages_requested = requested st\<rparr>
      | None \<Rightarrow>
          if writable
          then Some \<lparr>returned = Some (''all_jobs_'' @ today @ ''.json''),
                     artifact = Some (''all_jobs_'' @ today @ ''.json'', all_jobs st),
                     final_log = fetch_log st, pages_requested = requested st\<rparr>
          else Some \<lparr>returned = None, artifact = None,
                     final_log = fetch_log st @ [Error ''Error writing file''],
                     pages_requested = requested st\<rparr>)"
proof -
  define st0 where "st0 = \<lparr>page = 1, all_jobs = [], fetch_log = [], requested = [], sleeps = 0\<rparr>"
  have "fetch_loop api st0 = fetch_loop api (advance res n st0)"
    using n g by (intro fetch_loop_advance) (simp_all add: st0_def)
  moreover have "advance res n st0 = \<lparr>page = n, all_jobs = concat (map res [1 ..< n]),
               fetch_log = replicate (n - 1) (Info ''Page loaded''),
               requested = [1 ..< n], sleeps = n - 1\<rparr>"
    by (simp add: advance_def st0_def)
  ultimately have "fetch_loop api st0 = Some (out, st)" using l by simp
  with c show ?thesis
    by (cases out) (auto simp add: fetch_jobs_def st0_def Let_def)
qed

text \<open>
  C5, as amended: with both credentials present and every page before page \<open>n\<close> holding a
  non-empty list of postings, the loop asks for the pages 1 to \<open>n\<close> and for no other.
  If the request for page \<open>n\<close> fails, or page \<open>n\<close> holds no postings, the postings of the
  pages before it are written to the artifact, whose name is returned, and in the first
  case the error is logged. If page \<open>n\<close> cannot be read (its body is not JSON or not an
  object, or its postings cannot be iterated), the loop ends there as well, but by an
  exception: it is logged, nothing is written and \<^verbatim>\<open>None\<close> is returned.
\<close>

theorem fetch_jobs_stops:
  "app_id = Some a \<and> a \<noteq> [] \<and> app_key = Some k \<and> k \<noteq> [] \<and> 1 \<le> n
   \<and> (\<forall>p. 1 \<le> p \<and> p < n \<longrightarrow> page_results (api p) = Some (JArr (res p)) \<and> res p \<noteq> [])
   \<longrightarrow>
     (api n = RequestException \<longrightarrow>
        fetch_jobs app_id app_key api today True =
          Some \<lparr>returned = Some (''all_jobs_'' @ today @ ''.json''),
                artifact = Some (''all_jobs_'' @ today @ ''.json'', concat (map res [1 ..< n])),
                final_log = replicate (n - 1) (Info ''Page loaded'') @ [Error ''Request Error''],
                pages_requested = [1 ..< Suc n]\<rparr>)
   \<and> (page_results (api n) = Some v \<and> \<not> py_truthy v \<longrightarrow>
        fetch_jobs app_id app_key api today True =
          Some \<lparr>returned = Some (''all_jobs_'' @ today @ ''.json''),
                artifact = Some (''all_jobs_'' @ today @ ''.json'', concat (map res [1 ..< n])),
                final_log = replicate (n - 1) (Info ''Page loaded'')
                            @ [Info ''No more jobs found, finishing pagination.''],
                pages_requested = [1 ..< Suc n]\<rparr>)
   \<and> (api n = Response None
        \<or> (\<exists>data. api n = Response (Some data) \<and> \<not> is_dict data)
        \<or> (\<exists>w e. page_results (api n) = Some w \<and> py_truthy w \<and> py_iter w = Inl e) \<longrightarrow>
        fetch_jobs app_id app_key api today writable =
          Some \<lparr>returned = None, artifact = None,
                final_log = replicate (n - 1) (Info ''Page loaded'')
                            @ [ExceptionLog ''An error occurred''],
                pages_requested = [1 ..< Suc n]\<rparr>)"
proof (intro impI conjI)
  assume h: "app_id = Some a \<and> a \<noteq> [] \<and> app_key = Some k \<and> k \<noteq> [] \<and> 1 \<le> n
   \<and> (\<forall>p. 1 \<le> p \<and> p < n \<longrightarrow> page_results (api p) = Some (JArr (res p)) \<and> res p \<noteq> [])"
  then have c: "app_id = Some a \<and> a \<noteq> [] \<and> app_key = Some k \<and> k \<noteq> []" and n: "1 \<le> n"
    and g: "\<forall>p. 1 \<le> p \<and> p < n \<longrightarrow> page_results (api p) = Some (JArr (res p)) \<and> res p \<noteq> []"
    by simp_all
  define stn where "stn = \<lparr>page = n, all_jobs = concat (map res [1 ..< n]),
               fetch_log = replicate (n - 1) (Info ''Page loaded''),
               requested = [1 ..< n], sleeps = n - 1\<rparr>"
  have pn: "page stn = n" by (simp add: stn_def)
  have rq: "requested stn @ [n] = [1 ..< Suc n]" using n by (simp add: stn_def)
  {
    assume "api n = RequestException"
    then have "fetch_loop api stn = Some (None, stn\<lparr>requested := requested stn @ [page stn],
      fetch_log := fetch_log stn @ [Error ''Request Error'']\<rparr>)"
      by (intro fetch_loop_request_error) (simp add: pn)
    from fetch_jobs_via_advance [OF c n g this [unfolded stn_def], of today True] rq
    show "fetch_jobs app_id app_key api today True =
          Some \<lparr>returned = Some (''all_jobs_'' @ today @ ''.json''),
                artifact = Some (''all_jobs_'' @ today @ ''.json'', concat (map res [1 ..< n])),
                final_log = replicate (n - 1) (Info ''Page loaded'') @ [Error ''Request Error''],
                pages_requested = [1 ..< Suc n]\<rparr>"
      by (simp add: stn_def)
  }
  {
    assume "page_results (api n) = Some v \<and> \<not> py_truthy v"
    then have "fetch_loop api stn = Some (None, stn\<lparr>requested := requested stn @ [page stn],
      fetch_log := fetch_log stn @ [Info ''No more jobs found, finishing pagination.'']\<rparr>)"
      by (intro fetch_loop_no_results [of api stn v]) (simp_all add: pn)
    from fetch_jobs_via_advance [OF c n g this [unfolded stn_def], of today True] rq
    show "fetch_jobs app_id app_key api today True =
          Some \<lparr>returned = Some (''all_jobs_'' @ today @ ''.json''),
                artifact = Some (''all_jobs_'' @ today @ ''.json'', concat (map res [1 ..< n])),
                final_log = replicate (n - 1) (Info ''Page loaded'')
                            @ [Info ''No more jobs found, finishing pagination.''],
                pages_requested = [1 ..< Suc n]\<rparr>"
      by (simp add: stn_def)
  }
  {
    assume "api n = Response None
        \<or> (\<exists>data. api n = Response (Some data) \<and> \<not> is_dict data)
        \<or> (\<exists>w e. page_results (api n) = Some w \<and> py_truthy w \<and> py_iter w = Inl e)"
    then obtain e where "fetch_loop api stn
        = Some (Some e, stn\<lparr>requested := requested stn @ [page stn]\<rparr>)"
      using fetch_loop_raises [of api stn] by (auto simp add: pn)
    from fetch_jobs_via_advance [OF c n g this [unfolded stn_def], of today writable] rq
    show "fetch_jobs app_id app_key api today writable =
          Some \<lparr>returned = None, artifact = None,
                final_log = replicate (n - 1) (Info ''Page loaded'')
                            @ [ExceptionLog ''An error occurred''],
                pages_requested = [1 ..< Suc n]\<rparr>"
      by (simp add: stn_def)
  }
qed


lemma first_page_two_postings:
  "page_results (results_page two_postings) = Some (JArr two_postings) \<and> two_postings \<noteq> []"
  by (simp add: results_page_def page_results_def py_get_default_def two_postings_def)

theorem fetch_jobs_stops_witness:
  "page_results (mock_get 1) = Some (JArr two_postings) \<and> two_postings \<noteq> []
   \<and> page_results (mock_get 2) = Some (JArr []) \<and> \<not> py_truthy (JArr [])
   \<and> fetch_jobs (Some ''fake_id'') (Some ''fake_key'') mock_get ''2025-09-08'' True =
        Some \<lparr>returned = Some ''all_jobs_2025-09-08.json'',
              artifact = Some (''all_jobs_2025-09-08.json'', two_postings),
              final_log = [Info ''Page loaded'', Info ''No more jobs found, finishing pagination.''],
              pages_requested = [1, 2]\<rparr>
   \<and> page_results (failing_get 1) = Some (JArr two_postings)
   \<and> failing_get 2 = RequestException
   \<and> fetch_jobs (Some ''fake_id'') (Some ''fake_key'') failing_get ''2025-09-08'' True =
        Some \<lparr>returned = Some ''all_jobs_2025-09-08.json'',
              artifact = Some (''all_jobs_2025-09-08.json'', two_postings),
              final_log = [Info ''Page loaded'', Error ''Request Error''],
              pages_requested = [1, 2]\<rparr>"
proof -
  have g1: "\<forall>p. 1 \<le> p \<and> p < 2 \<longrightarrow>
       page_results (mock_get p) = Some (JArr two_postings) \<and> two_postings \<noteq> []"
    using first_page_two_postings by (auto simp add: mock_get_def)
  have s1: "page_results (mock_get 2) = Some (JArr []) \<and> \<not> py_truthy (JArr [])"
    by (simp add: mock_get_def results_page_def page_results_def py_get_default_def)
  have g2: "\<forall>p. 1 \<le> p \<and> p < 2 \<longrightarrow>
       page_results (failing_get p) = Some (JArr two_postings) \<and> two_postings \<noteq> []"
    using first_page_two_postings by (auto simp add: failing_get_def)
  have s2: "failing_get 2 = RequestException" by (simp add: failing_get_def)
  have c: "Some ''fake_id'' = Some ''fake_id'' \<and> ''fake_id'' \<noteq> []
      \<and> Some ''fake_key'' = Some ''fake_key'' \<and> ''fake_key'' \<noteq> [] \<and> (1::nat) \<le> 2"
    by simp
  have u: "[Suc 0 ..< 2] = [Suc 0]" "[Suc 0 ..< 3] = [Suc 0, 2]"
    by (simp_all add: upt_rec)
  have r1: "fetch_jobs (Some ''fake_id'') (Some ''fake_key'') mock_get ''2025-09-08'' True =
          Some \<lparr>returned = Some (''all_jobs_'' @ ''2025-09-08'' @ ''.json''),
                artifact = Some (''all_jobs_'' @ ''2025-09-08'' @ ''.json'',
                   concat (map (\<lambda>p. two_postings) [1 ..< 2])),
                final_log = replicate (2 - 1) (Info ''Page loaded'')
                            @ [Info ''No more jobs found, finishing pagination.''],
                pages_requested = [1 ..< Suc 2]\<rparr>"
    using c g1 s1
      fetch_jobs_stops [of "Some ''fake_id''" "''fake_id''" "Some ''fake_key''" "''fake_key''" 2
        mock_get "\<lambda>p. two_postings" "''2025-09-08''" "JArr []" True]
    by blast
  have r2: "fetch_jobs (Some ''fake_id'') (Some ''fake_key'') failing_get ''2025-09-08'' True =
          Some \<lparr>returned = Some (''all_jobs_'' @ ''2025-09-08'' @ ''.json''),
                artifact = Some (''all_jobs_'' @ ''2025-09-08'' @ ''.json'',
                   concat (map (\<lambda>p. two_postings) [1 ..< 2])),
                final_log = replicate (2 - 1) (Info ''Page loaded'') @ [Error ''Request Error''],
                pages_requested = [1 ..< Suc 2]\<rparr>"
    using c g2 s2
      fetch_jobs_stops [of "Some ''fake_id''" "''fake_id''" "Some ''fake_key''" "''fake_key''" 2
        failing_get "\<lambda>p. two_postings" "''2025-09-08''" "JArr []" True]
    by blast
  from r1 have r1': "fetch_jobs (Some ''fake_id'') (Some ''fake_key'') mock_get ''2025-09-08'' True =
        Some \<lparr>returned = Some ''all_jobs_2025-09-08.json'',
              artifact = Some (''all_jobs_2025-09-08.json'', two_postings),
              final_log = [Info ''Page loaded'', Info ''No more jobs found, finishing pagination.''],
              pages_requested = [1, 2]\<rparr>"
    by (simp add: u)
  from r2 have r2': "fetch_jobs (Some ''fake_id'') (Some ''fake_key'') failing_get ''2025-09-08'' True =
        Some \<lparr>returned = Some ''all_jobs_2025-09-08.json'',
              artifact = Some (''all_jobs_2025-09-08.json'', two_postings),
              final_log = [Info ''Page loaded'', Error ''Request Error''],
              pages_requested = [1, 2]\<rparr>"
    by (simp add: u)
  have f1: "page_results (mock_get 1) = Some (JArr two_postings) \<and> two_postings \<noteq> []"
    using first_page_two_postings by (simp add: mock_get_def)
  have f2: "page_results (failing_get 1) = Some (JArr two_postings)"
    using first_page_two_postings by (simp add: failing_get_def)
  from f1 f2 s1 r1' s2 r2' show ?thesis by blast
qed

text \<open>C5 as stated fails: the second page is answered (no request failure) and is not an
  empty result list, yet pagination stops there, and the two postings collected from
  page 1 are not written.\<close>

theorem undecodable_page_discards_results:
  "broken_get 2 \<noteq> RequestException
   \<and> page_results (broken_get 2) = None
   \<and> fetch_jobs (Some ''fake_id'') (Some ''fake_key'') broken_get ''2025-09-08'' True =
        Some \<lparr>returned = None, artifact = None,
              final_log = [Info ''Page loaded'', ExceptionLog ''An error occurred''],
              pages_requested = [1, 2]\<rparr>"
proof -
  have g: "\<forall>p. 1 \<le> p \<and> p < 2 \<longrightarrow>
       page_results (broken_get p) = Some (JArr ((\<lambda>p::nat. two_postings) p))
       \<and> (\<lambda>p::nat. two_postings) p \<noteq> []"
    using first_page_two_postings by (auto simp add: broken_get_def)
  have u: "[Suc 0 ..< 2] = [Suc 0]" by (simp add: upt_rec)
  define st2 where "st2 = \<lparr>page = 2, all_jobs = concat (map (\<lambda>p. two_postings) [1 ..< 2]),
               fetch_log = replicate (2 - 1) (Info ''Page loaded''),
               requested = [1 ..< 2], sleeps = 2 - 1\<rparr>"
  have "fetch_loop broken_get st2 = Some (Some ValueError, st2\<lparr>requested := requested st2 @ [page st2]\<rparr>)"
    by (subst fetch_loop.simps) (simp add: broken_get_def st2_def Let_def)
  from fetch_jobs_via_advance [of "Some ''fake_id''" "''fake_id''" "Some ''fake_key''" "''fake_key''" 2
      broken_get "\<lambda>p. two_postings", OF _ _ g this [unfolded st2_def], of "''2025-09-08''" True]
  have "fetch_jobs (Some ''fake_id'') (Some ''fake_key'') broken_get ''2025-09-08'' True =
        Some \<lparr>returned = None, artifact = None,
              final_log = [Info ''Page loaded'', ExceptionLog ''An error occurred''],
              pages_requested = [1, 2]\<rparr>"
    by (simp add: u)
  then show ?thesis by (simp add: broken_get_def page_results_def)
qed

end
